theory Spec2Isabelle
  imports Main "HOL-Library.Sublist" "HOL-Library.Multiset" "HOL-Library.AList" "HOL-Library.Word"
begin

section \<open>Python strings\<close>

text \<open>
  A Python \<^verbatim>\<open>str\<close> is a sequence of Unicode code points, so it is modelled as a list
  of natural numbers; \<open>length\<close> counts code points as \<^verbatim>\<open>len\<close> does. ASCII pieces of
  a literal are written with \<open>cp\<close>, the other code points as numbers (the source file
  stores its accented letters precomposed: U+00F3, U+00CD, U+00EA, U+00E3).
\<close>

type_synonym ustr = "nat list"

definition cp :: "string \<Rightarrow> ustr" where
  "cp s = map of_char s"

text \<open>
  \<^verbatim>\<open>text.find(sub)\<close>: the lowest index at which \<^verbatim>\<open>sub\<close> starts in \<^verbatim>\<open>text\<close>, or -1.
  The scan carries the index of the position it is looking at.
\<close>

fun find_from :: "'a list \<Rightarrow> 'a list \<Rightarrow> nat \<Rightarrow> int" where
  "find_from sub [] i = (if sub = [] then int i else - 1)"
| "find_from sub (c # s) i =
     (if prefix sub (c # s) then int i else find_from sub s (Suc i))"

definition str_find :: "'a list \<Rightarrow> 'a list \<Rightarrow> int" where
  "str_find text sub = find_from sub text 0"

text \<open>\<^verbatim>\<open>sub in text\<close>: substring containment.\<close>

fun contains :: "'a list \<Rightarrow> 'a list \<Rightarrow> bool" where
  "contains sub [] = (sub = [])"
| "contains sub (c # s) = (prefix sub (c # s) \<or> contains sub s)"

text \<open>
  Slicing \<^verbatim>\<open>s[a:b]\<close> and \<^verbatim>\<open>s[a:]\<close> with integer bounds: a negative bound counts from
  the end, every bound is clamped to \<open>0..len(s)\<close>, and a start at or after the stop
  gives the empty string.
\<close>

definition slice_index :: "nat \<Rightarrow> int \<Rightarrow> nat" where
  "slice_index n i = (if i < 0 then nat (max 0 (int n + i)) else min n (nat i))"

definition slice :: "'a list \<Rightarrow> int \<Rightarrow> int \<Rightarrow> 'a list" where
  "slice s a b =
     (let lo = slice_index (length s) a; hi = slice_index (length s) b
      in take (hi - lo) (drop lo s))"

definition slice_from :: "'a list \<Rightarrow> int \<Rightarrow> 'a list" where
  "slice_from s a = drop (slice_index (length s) a) s"

section \<open>The status classifier: \<^verbatim>\<open>analyze_text\<close>\<close>

definition rf_title :: ustr where
  "rf_title = cp ''Diagn'' @ [243] @ cp ''stico Fiscal na Receita Federal''"

definition pgfn_title :: ustr where
  "pgfn_title =
     cp ''Diagn'' @ [243] @ cp ''stico Fiscal na Procuradoria-Geral da Fazenda Nacional''"

definition em_parcelamento :: ustr where
  "em_parcelamento = cp ''EM PARCELAMENTO''"

definition base_indisponivel :: ustr where
  "base_indisponivel = cp ''BASE INDISPON'' @ [205] @ cp ''VEL''"

definition parcelamento :: ustr where
  "parcelamento = cp ''Parcelamento''"

definition pendencia_parcelamento :: ustr where
  "pendencia_parcelamento = cp ''Pend'' @ [234] @ cp ''ncia - Parcelamento''"

definition nao_foram_detectadas :: ustr where
  "nao_foram_detectadas =
     cp ''N'' @ [227] @ cp ''o foram detectadas pend'' @ [234]
       @ cp ''ncias/exigibilidades suspensas''"

text \<open>The two local variables \<^verbatim>\<open>rf_section\<close> and \<^verbatim>\<open>pgfn_section\<close> (lines 25 to 28).\<close>

definition rf_section :: "ustr \<Rightarrow> ustr" where
  "rf_section text =
     (let rf_start = str_find text rf_title;
          pgfn_start = str_find text pgfn_title
      in if rf_start \<noteq> - 1 \<and> pgfn_start \<noteq> - 1 then slice text rf_start pgfn_start else [])"

definition pgfn_section :: "ustr \<Rightarrow> ustr" where
  "pgfn_section text =
     (let pgfn_start = str_find text pgfn_title
      in if pgfn_start \<noteq> - 1 then slice_from text pgfn_start else [])"

text \<open>
  Lines 30 to 36. Each flag is assigned once from its containment test and then passes
  through the second \<^verbatim>\<open>if\<close>, whose body assigns \<^verbatim>\<open>False\<close>.
\<close>

definition analyze_text :: "ustr \<Rightarrow> bool \<times> bool" where
  "analyze_text text =
     (let rf_parc = contains em_parcelamento (rf_section text);
          rf_parc = (if \<not> rf_parc \<and> contains base_indisponivel (rf_section text)
                        \<and> contains parcelamento (rf_section text)
                     then False else rf_parc);
          pgfn_parc = contains pendencia_parcelamento (pgfn_section text);
          pgfn_parc = (if \<not> pgfn_parc \<and> contains nao_foram_detectadas (pgfn_section text)
                       then False else pgfn_parc)
      in (rf_parc, pgfn_parc))"

text \<open>The classifier without the two second \<^verbatim>\<open>if\<close> statements.\<close>

definition analyze_text_simplified :: "ustr \<Rightarrow> bool \<times> bool" where
  "analyze_text_simplified text =
     (contains em_parcelamento (rf_section text),
      contains pendencia_parcelamento (pgfn_section text))"

subsection \<open>The classifier as the specification words it\<close>

text \<open>
  \<open>sub\<close> occurs in \<open>s\<close> at position \<open>k\<close>; the first occurrence is the least such
  position; the substring from \<open>i\<close> to \<open>j\<close> holds the characters at the positions
  \<open>i \<le> k < j\<close>.
\<close>

definition occurs_at :: "'a list \<Rightarrow> 'a list \<Rightarrow> nat \<Rightarrow> bool" where
  "occurs_at sub s k \<longleftrightarrow> k + length sub \<le> length s \<and> take (length sub) (drop k s) = sub"

definition first_occurrence :: "'a list \<Rightarrow> 'a list \<Rightarrow> nat option" where
  "first_occurrence sub s =
     (if \<exists>k. occurs_at sub s k then Some (LEAST k. occurs_at sub s k) else None)"

definition substring :: "'a list \<Rightarrow> nat \<Rightarrow> nat \<Rightarrow> 'a list" where
  "substring s i j = map (\<lambda>k. s ! k) [i..<j]"

definition spec_rf_section :: "ustr \<Rightarrow> ustr" where
  "spec_rf_section text =
     (case (first_occurrence rf_title text, first_occurrence pgfn_title text) of
        (Some s1, Some s2) \<Rightarrow> substring text s1 s2
      | _ \<Rightarrow> [])"

definition spec_pgfn_section :: "ustr \<Rightarrow> ustr" where
  "spec_pgfn_section text =
     (case first_occurrence pgfn_title text of
        Some s2 \<Rightarrow> substring text s2 (length text)
      | None \<Rightarrow> [])"

section \<open>Exceptions\<close>

text \<open>
  An exception is a value; each constructor carries the text that \<^verbatim>\<open>str(e)\<close> gives.
  \<open>LibraryError\<close> stands for an exception raised inside PyPDF2 or reportlab.
\<close>

datatype error =
    ValueError ustr
  | KeyError ustr
  | UnicodeEncodeError ustr
  | LibraryError ustr

fun exc_str :: "error \<Rightarrow> ustr" where
  "exc_str (ValueError m) = m"
| "exc_str (KeyError m) = m"
| "exc_str (UnicodeEncodeError m) = m"
| "exc_str (LibraryError m) = m"

section \<open>The identifier resolver\<close>

subsection \<open>String methods used on the mapping text\<close>

text \<open>
  \<^verbatim>\<open>str.splitlines()\<close> breaks at LF, VT, FF, CR, CR LF (one break), FS, GS, RS, NEL, LS
  and PS, keeps no line ends and adds no empty last line.
\<close>

definition is_linebreak :: "nat \<Rightarrow> bool" where
  "is_linebreak c \<longleftrightarrow>
     (10 \<le> c \<and> c \<le> 13) \<or> (28 \<le> c \<and> c \<le> 30) \<or> c = 133 \<or> c = 8232 \<or> c = 8233"

fun splitlines_from :: "ustr \<Rightarrow> ustr \<Rightarrow> ustr list" where
  "splitlines_from cur [] = (if cur = [] then [] else [cur])"
| "splitlines_from cur (c # s) =
     (if c = 13 then
        (case s of
           [] \<Rightarrow> [cur]
         | d # s' \<Rightarrow> if d = 10 then cur # splitlines_from [] s' else cur # splitlines_from [] s)
      else if is_linebreak c then cur # splitlines_from [] s
      else splitlines_from (cur @ [c]) s)"

definition splitlines :: "ustr \<Rightarrow> ustr list" where
  "splitlines s = splitlines_from [] s"

text \<open>\<^verbatim>\<open>s.split(sep)\<close> with a separator of one character.\<close>

fun split_from :: "'a \<Rightarrow> 'a list \<Rightarrow> 'a list \<Rightarrow> 'a list list" where
  "split_from sep cur [] = [cur]"
| "split_from sep cur (c # s) =
     (if c = sep then cur # split_from sep [] s else split_from sep (cur @ [c]) s)"

definition str_split :: "'a \<Rightarrow> 'a list \<Rightarrow> 'a list list" where
  "str_split sep s = split_from sep [] s"

text \<open>\<^verbatim>\<open>str.strip()\<close> removes the characters for which \<^verbatim>\<open>str.isspace\<close> holds at both ends.\<close>

definition is_space :: "nat \<Rightarrow> bool" where
  "is_space c \<longleftrightarrow>
     (9 \<le> c \<and> c \<le> 13) \<or> (28 \<le> c \<and> c \<le> 32) \<or> c = 133 \<or> c = 160 \<or> c = 5760
     \<or> (8192 \<le> c \<and> c \<le> 8202) \<or> c = 8232 \<or> c = 8233 \<or> c = 8239 \<or> c = 8287
     \<or> c = 12288"

definition strip :: "ustr \<Rightarrow> ustr" where
  "strip s = rev (dropWhile is_space (rev (dropWhile is_space s)))"

text \<open>
  The class \<^verbatim>\<open>\d\<close> of the regular expression engine is every Unicode decimal digit, a
  table of the Python runtime. It is a parameter \<open>dg\<close> of the model; \<open>ascii_digit\<close> is
  the class restricted to ASCII, with which it agrees on ASCII text.
  \<^verbatim>\<open>re.sub(r'\D', '', cnpj)\<close> keeps exactly the characters of the class.
\<close>

definition ascii_digit :: "nat \<Rightarrow> bool" where
  "ascii_digit c \<longleftrightarrow> 48 \<le> c \<and> c \<le> 57"

definition re_sub_non_digits :: "(nat \<Rightarrow> bool) \<Rightarrow> ustr \<Rightarrow> ustr" where
  "re_sub_non_digits dg cnpj = filter dg cnpj"

subsection \<open>Reading the mapping (lines 84 to 88)\<close>

text \<open>
  The dict is an association list with Python's update: an existing key keeps its place
  and takes the new value, a new key goes to the end. Unpacking \<^verbatim>\<open>name, cnpj = ...\<close>
  raises \<^verbatim>\<open>ValueError\<close> unless the split has exactly two parts.
\<close>

type_synonym dict = "(ustr \<times> ustr) list"

definition parse_line :: "(nat \<Rightarrow> bool) \<Rightarrow> dict \<Rightarrow> ustr \<Rightarrow> error + dict" where
  "parse_line dg mapping line =
     (if contains [9] line then
        (case str_split 9 line of
           [name, cnpj] \<Rightarrow>
             Inr (AList.update (re_sub_non_digits dg cnpj) (strip name) mapping)
         | [] \<Rightarrow> Inl (ValueError (cp ''not enough values to unpack (expected 2, got 0)''))
         | [name] \<Rightarrow> Inl (ValueError (cp ''not enough values to unpack (expected 2, got 1)''))
         | _ \<Rightarrow> Inl (ValueError (cp ''too many values to unpack (expected 2)'')))
      else Inr mapping)"

fun parse_lines :: "(nat \<Rightarrow> bool) \<Rightarrow> dict \<Rightarrow> ustr list \<Rightarrow> error + dict" where
  "parse_lines dg mapping [] = Inr mapping"
| "parse_lines dg mapping (line # rest) =
     (case parse_line dg mapping line of
        Inl e \<Rightarrow> Inl e
      | Inr mapping' \<Rightarrow> parse_lines dg mapping' rest)"

definition parse_mapping :: "(nat \<Rightarrow> bool) \<Rightarrow> ustr \<Rightarrow> error + dict" where
  "parse_mapping dg mapping_text = parse_lines dg [] (splitlines mapping_text)"

subsection \<open>Looking a file name up (lines 100 to 102)\<close>

text \<open>
  \<^verbatim>\<open>re.search(r"(\d{14})", name)\<close> tries the start positions from left to right and
  returns the first at which fourteen characters of the class follow.
\<close>

fun search_d14 :: "(nat \<Rightarrow> bool) \<Rightarrow> ustr \<Rightarrow> ustr option" where
  "search_d14 dg [] = None"
| "search_d14 dg (c # s) =
     (if 14 \<le> length (c # s) \<and> list_all dg (take 14 (c # s)) then Some (take 14 (c # s))
      else search_d14 dg s)"

definition desconhecida :: ustr where
  "desconhecida = cp ''Desconhecida''"

text \<open>\<^verbatim>\<open>mapping.get(key, default)\<close>, where the key may be \<^verbatim>\<open>None\<close>, which is no key.\<close>

definition mapping_get :: "dict \<Rightarrow> ustr option \<Rightarrow> ustr \<Rightarrow> ustr" where
  "mapping_get mapping key dflt =
     (case key of
        None \<Rightarrow> dflt
      | Some k \<Rightarrow> (case map_of mapping k of None \<Rightarrow> dflt | Some v \<Rightarrow> v))"

definition resolve_empresa :: "(nat \<Rightarrow> bool) \<Rightarrow> dict \<Rightarrow> ustr \<Rightarrow> ustr" where
  "resolve_empresa dg mapping fname =
     (let cnpj = search_d14 dg fname in mapping_get mapping cnpj desconhecida)"

subsection \<open>The resolver as the specification words it\<close>

text \<open>
  A 14-digit string; the leftmost 14-digit substring of a name is the one that occurs at
  a position before which no 14-digit string occurs.
\<close>

definition is_d14 :: "(nat \<Rightarrow> bool) \<Rightarrow> ustr \<Rightarrow> bool" where
  "is_d14 dg d \<longleftrightarrow> length d = 14 \<and> list_all dg d"

definition d14_at :: "(nat \<Rightarrow> bool) \<Rightarrow> ustr \<Rightarrow> nat \<Rightarrow> bool" where
  "d14_at dg s k \<longleftrightarrow> (\<exists>d. is_d14 dg d \<and> occurs_at d s k)"

definition leftmost_d14 :: "(nat \<Rightarrow> bool) \<Rightarrow> ustr \<Rightarrow> ustr \<Rightarrow> bool" where
  "leftmost_d14 dg s d \<longleftrightarrow>
     is_d14 dg d \<and> (\<exists>k. occurs_at d s k \<and> \<not> (\<exists>j. j < k \<and> d14_at dg s j))"

section \<open>The batch run\<close>

subsection \<open>What the run takes from outside\<close>

text \<open>
  File contents are byte strings. The uploaded archive is taken as opened: the list of
  its entries in archive order (\<^verbatim>\<open>zf.infolist()\<close>), each with its name and content.
  \<^verbatim>\<open>zf.read(name)\<close> looks the name up in the archive's name table, in which a later entry
  of the same name replaces an earlier one.
\<close>

type_synonym bytes = "8 word list"

record zip_entry =
  filename :: ustr
  data :: bytes

definition zf_read :: "zip_entry list \<Rightarrow> ustr \<Rightarrow> error + bytes" where
  "zf_read zf name =
     (case rev (filter (\<lambda>e. filename e = name) zf) of
        [] \<Rightarrow> Inl (KeyError name)
      | e # _ \<Rightarrow> Inr (data e))"

text \<open>
  The libraries and tables of the Python runtime are fields of an environment:
  the class \<^verbatim>\<open>\d\<close>; \<^verbatim>\<open>str.lower\<close>; PyPDF2's reader, which gives for a byte string
  the text of each page (\<^verbatim>\<open>None\<close> or a string) or raises; reportlab's
  \<^verbatim>\<open>doc.build\<close>, which lays out a title and a table into a PDF or raises;
  \<^verbatim>\<open>os.linesep\<close>, the line terminator that \<^verbatim>\<open>to_csv\<close> uses; and \<^verbatim>\<open>os.sep\<close>, the
  path separator of the platform (\<^verbatim>\<open>/\<close>, 47, or the backslash, 92).
\<close>

record env =
  isdigit :: "nat \<Rightarrow> bool"
  lower :: "ustr \<Rightarrow> ustr"
  pdf_pages :: "bytes \<Rightarrow> error + ustr option list"
  doc_build :: "ustr \<times> ustr list list \<Rightarrow> error + bytes"
  linesep :: ustr
  os_sep :: nat

subsection \<open>\<^verbatim>\<open>extract_text_from_bytes\<close> (lines 13 to 19)\<close>

definition extract_text_from_bytes :: "env \<Rightarrow> bytes \<Rightarrow> error + ustr" where
  "extract_text_from_bytes E file_bytes =
     (case pdf_pages E file_bytes of
        Inl e \<Rightarrow> Inl e
      | Inr pages \<Rightarrow>
          Inr (foldl (\<lambda>text page. text @ (case page of None \<Rightarrow> [] | Some t \<Rightarrow> t) @ [10])
                 [] pages))"

subsection \<open>\<^verbatim>\<open>generate_pdf\<close> (lines 39 to 68)\<close>

record result =
  empresa :: ustr
  rf :: bool
  pgfn :: bool

definition sim_nao :: "bool \<Rightarrow> ustr" where
  "sim_nao b = (if b then cp ''Sim'' else cp ''N'' @ [227] @ cp ''o'')"

definition header :: "ustr list" where
  "header = [cp ''Empresa'', cp ''Parcelamento RF'', cp ''Parcelamento PGFN'']"

definition result_row :: "result \<Rightarrow> ustr list" where
  "result_row r = [empresa r, sim_nao (rf r), sim_nao (pgfn r)]"

definition pdf_data :: "result list \<Rightarrow> ustr list list" where
  "pdf_data rs = foldl (\<lambda>table r. table @ [result_row r]) [header] rs"

definition pdf_title :: ustr where
  "pdf_title = cp ''Relat'' @ [243] @ cp ''rio de Parcelamento''"

definition generate_pdf :: "env \<Rightarrow> result list \<Rightarrow> error + bytes" where
  "generate_pdf E rs = doc_build E (pdf_title, pdf_data rs)"

subsection \<open>The data frame and its CSV text (lines 125 to 134)\<close>

text \<open>
  \<^verbatim>\<open>pd.DataFrame(records)\<close> for a list of dicts that all have the same keys in the same
  order: the columns are the keys of the first dict, and an empty list gives a frame with
  no column and no row. \<^verbatim>\<open>to_csv(index=False)\<close> writes the line of column names and then
  one line per row, each closed by the line terminator; a field is quoted when it holds
  a comma, a double quote, CR, LF or a character of the line terminator, with double
  quotes doubled.
\<close>

record dataframe =
  columns :: "ustr list"
  df_rows :: "ustr list list"

definition DataFrame :: "(ustr \<times> ustr) list list \<Rightarrow> dataframe" where
  "DataFrame records =
     \<lparr>columns = (case records of [] \<Rightarrow> [] | r # _ \<Rightarrow> map fst r),
      df_rows = map (map snd) records\<rparr>"

definition csv_field :: "ustr \<Rightarrow> ustr \<Rightarrow> ustr" where
  "csv_field nl f =
     (if list_ex (\<lambda>c. c = 44 \<or> c = 34 \<or> c = 13 \<or> c = 10 \<or> c \<in> set nl) f
      then [34] @ concat (map (\<lambda>c. if c = 34 then [34, 34] else [c]) f) @ [34]
      else f)"

fun join :: "'a list \<Rightarrow> 'a list list \<Rightarrow> 'a list" where
  "join sep [] = []"
| "join sep [x] = x"
| "join sep (x # y # ys) = x @ sep @ join sep (y # ys)"

definition csv_line :: "ustr \<Rightarrow> ustr list \<Rightarrow> ustr" where
  "csv_line nl row = join [44] (map (csv_field nl) row) @ nl"

definition to_csv :: "ustr \<Rightarrow> dataframe \<Rightarrow> ustr" where
  "to_csv nl df = csv_line nl (columns df) @ concat (map (csv_line nl) (df_rows df))"

text \<open>\<^verbatim>\<open>str.encode('utf-8')\<close>; a surrogate code point raises.\<close>

definition encode_char :: "nat \<Rightarrow> error + bytes" where
  "encode_char c =
     (if c < 128 then Inr [of_nat c]
      else if c < 2048 then Inr [of_nat (192 + c div 64), of_nat (128 + c mod 64)]
      else if 55296 \<le> c \<and> c \<le> 57343 then
        Inl (UnicodeEncodeError (cp ''surrogates not allowed''))
      else if c < 65536 then
        Inr [of_nat (224 + c div 4096), of_nat (128 + c div 64 mod 64), of_nat (128 + c mod 64)]
      else if c < 1114112 then
        Inr [of_nat (240 + c div 262144), of_nat (128 + c div 4096 mod 64),
             of_nat (128 + c div 64 mod 64), of_nat (128 + c mod 64)]
      else Inl (UnicodeEncodeError (cp ''not a code point'')))"

fun encode_utf8 :: "ustr \<Rightarrow> error + bytes" where
  "encode_utf8 [] = Inr []"
| "encode_utf8 (c # s) =
     (case encode_char c of
        Inl e \<Rightarrow> Inl e
      | Inr b \<Rightarrow> (case encode_utf8 s of Inl e \<Rightarrow> Inl e | Inr bs \<Rightarrow> Inr (b @ bs)))"

subsection \<open>The loop over the archive (lines 92 to 119)\<close>

record loop_state =
  results :: "result list"
  matched_files :: "(ustr \<times> bytes) list"
  unmatched_files :: "(ustr \<times> bytes) list"

definition endswith :: "'a list \<Rightarrow> 'a list \<Rightarrow> bool" where
  "endswith s suf = suffix suf s"

definition is_report :: "env \<Rightarrow> zip_entry \<Rightarrow> bool" where
  "is_report E info = endswith (lower E (filename info)) (cp ''.pdf'')"

definition loop_body ::
  "env \<Rightarrow> dict \<Rightarrow> zip_entry list \<Rightarrow> loop_state \<Rightarrow> zip_entry \<Rightarrow> error + loop_state" where
  "loop_body E mapping zf st info =
     (if is_report E info then
        (case zf_read zf (filename info) of
           Inl e \<Rightarrow> Inl e
         | Inr file_bytes \<Rightarrow>
             (let name = resolve_empresa (isdigit E) mapping (filename info) in
              case extract_text_from_bytes E file_bytes of
                Inl e \<Rightarrow> Inl e
              | Inr text \<Rightarrow>
                  (let (rf_parc, pgfn_parc) = analyze_text text;
                       st1 = st\<lparr>results := results st
                                @ [\<lparr>empresa = name, rf = rf_parc, pgfn = pgfn_parc\<rparr>]\<rparr>
                   in if name \<noteq> desconhecida
                      then Inr (st1\<lparr>matched_files := matched_files st1
                                  @ [(name @ cp ''.pdf'', file_bytes)]\<rparr>)
                      else Inr (st1\<lparr>unmatched_files := unmatched_files st1
                                  @ [(filename info, file_bytes)]\<rparr>))))
      else Inr st)"

fun for_infolist ::
  "env \<Rightarrow> dict \<Rightarrow> zip_entry list \<Rightarrow> loop_state \<Rightarrow> zip_entry list \<Rightarrow> error + loop_state" where
  "for_infolist E mapping zf st [] = Inr st"
| "for_infolist E mapping zf st (info # rest) =
     (case loop_body E mapping zf st info of
        Inl e \<Rightarrow> Inl e
      | Inr st' \<Rightarrow> for_infolist E mapping zf st' rest)"

definition empty_state :: loop_state where
  "empty_state = \<lparr>results = [], matched_files = [], unmatched_files = []\<rparr>"

subsection \<open>\<^verbatim>\<open>main\<close> (lines 71 to 166)\<close>

text \<open>
  What the operator gets: the frame shown, the data behind the three download buttons
  (the PDF button is absent when \<^verbatim>\<open>generate_pdf\<close> raised), the messages of
  \<^verbatim>\<open>st.error\<close>, and for the output archive the list of \<^verbatim>\<open>writestr\<close> calls in order
  (the archive keeps every entry written, also under a name written before).
\<close>

record outputs =
  st_dataframe :: dataframe
  csv :: bytes
  pdf :: "bytes option"
  st_error :: "ustr list"
  zip_out :: "(ustr \<times> bytes) list"

definition known_results :: "result list \<Rightarrow> result list" where
  "known_results rs = filter (\<lambda>r. empresa r \<noteq> desconhecida) rs"

definition results_frame :: "result list \<Rightarrow> dataframe" where
  "results_frame known =
     DataFrame (map (\<lambda>r. [(cp ''Empresa'', empresa r),
                           (cp ''Parcelamento RF'', sim_nao (rf r)),
                           (cp ''Parcelamento PGFN'', sim_nao (pgfn r))]) known)"

text \<open>
  \<^verbatim>\<open>zout.writestr(name, data)\<close> makes a \<^verbatim>\<open>ZipInfo\<close> for the name, and \<^verbatim>\<open>ZipInfo\<close> cuts
  the name at the first NUL character and then, on a platform whose separator is not
  \<^verbatim>\<open>/\<close>, writes every separator as \<^verbatim>\<open>/\<close>. The archive gets an entry with the name so
  stored.
\<close>

definition zipinfo_name :: "env \<Rightarrow> ustr \<Rightarrow> ustr" where
  "zipinfo_name E name =
     (let cut = takeWhile (\<lambda>c. c \<noteq> 0) name
      in if os_sep E \<noteq> 47 \<and> os_sep E \<in> set cut
         then map (\<lambda>c. if c = os_sep E then 47 else c) cut
         else cut)"

definition write_zip :: "env \<Rightarrow> loop_state \<Rightarrow> (ustr \<times> bytes) list" where
  "write_zip E st =
     map (\<lambda>(fname, d). (zipinfo_name E (cp ''renomeados/'' @ fname), d)) (matched_files st)
     @ map (\<lambda>(orig, d). (zipinfo_name E (cp ''nao_encontrados/'' @ orig), d))
         (unmatched_files st)"

definition try_generate_pdf :: "env \<Rightarrow> result list \<Rightarrow> bytes option \<times> ustr list" where
  "try_generate_pdf E known =
     (case generate_pdf E known of
        Inr pdf_buffer \<Rightarrow> (Some pdf_buffer, [])
      | Inl e \<Rightarrow> (None, [cp ''Erro ao gerar PDF: '' @ exc_str e]))"

definition main :: "env \<Rightarrow> zip_entry list option \<Rightarrow> ustr \<Rightarrow> error + outputs option" where
  "main E zip_file mapping_text =
     (case zip_file of
        None \<Rightarrow> Inr None
      | Some zf \<Rightarrow>
          if mapping_text = [] then Inr None
          else
            (case parse_mapping (isdigit E) mapping_text of
               Inl e \<Rightarrow> Inl e
             | Inr mapping \<Rightarrow>
                 (case for_infolist E mapping zf empty_state zf of
                    Inl e \<Rightarrow> Inl e
                  | Inr st \<Rightarrow>
                      (let known = known_results (results st);
                           df = results_frame known
                       in case encode_utf8 (to_csv (linesep E) df) of
                            Inl e \<Rightarrow> Inl e
                          | Inr csv_bytes \<Rightarrow>
                              (let (pdf_buffer, errs) = try_generate_pdf E known
                               in Inr (Some \<lparr>st_dataframe = df, csv = csv_bytes,
                                             pdf = pdf_buffer, st_error = errs,
                                             zip_out = write_zip E st\<rparr>))))))"

subsection \<open>The run, report by report\<close>

text \<open>
  The reports of an archive are its entries whose lower-cased name ends in
  \<^verbatim>\<open>.pdf\<close>. For one report: whether its company is known, the content read for it,
  its result record, its table row, and the archive entry it is written to.
\<close>

definition reports :: "env \<Rightarrow> zip_entry list \<Rightarrow> zip_entry list" where
  "reports E zf = filter (is_report E) zf"

definition known :: "env \<Rightarrow> dict \<Rightarrow> zip_entry \<Rightarrow> bool" where
  "known E mapping info \<longleftrightarrow>
     resolve_empresa (isdigit E) mapping (filename info) \<noteq> desconhecida"

definition report_bytes :: "zip_entry list \<Rightarrow> zip_entry \<Rightarrow> bytes" where
  "report_bytes zf info = data (last (filter (\<lambda>e. filename e = filename info) zf))"

definition report_result :: "env \<Rightarrow> dict \<Rightarrow> zip_entry list \<Rightarrow> zip_entry \<Rightarrow> error + result" where
  "report_result E mapping zf info =
     (case extract_text_from_bytes E (report_bytes zf info) of
        Inl e \<Rightarrow> Inl e
      | Inr text \<Rightarrow>
          Inr \<lparr>empresa = resolve_empresa (isdigit E) mapping (filename info),
               rf = fst (analyze_text text), pgfn = snd (analyze_text text)\<rparr>)"

definition report_row :: "env \<Rightarrow> dict \<Rightarrow> zip_entry list \<Rightarrow> zip_entry \<Rightarrow> error + ustr list" where
  "report_row E mapping zf info = map_sum id result_row (report_result E mapping zf info)"

definition renamed_entry :: "env \<Rightarrow> dict \<Rightarrow> zip_entry list \<Rightarrow> zip_entry \<Rightarrow> ustr \<times> bytes" where
  "renamed_entry E mapping zf info =
     (zipinfo_name E
        (cp ''renomeados/'' @ resolve_empresa (isdigit E) mapping (filename info) @ cp ''.pdf''),
      report_bytes zf info)"

definition review_entry :: "env \<Rightarrow> zip_entry list \<Rightarrow> zip_entry \<Rightarrow> ustr \<times> bytes" where
  "review_entry E zf info =
     (zipinfo_name E (cp ''nao_encontrados/'' @ filename info), report_bytes zf info)"

text \<open>
  A name that \<^verbatim>\<open>ZipInfo\<close> stores as it is: it holds no NUL and, where the platform
  separator is the backslash, no backslash.
\<close>

definition zip_safe :: "env \<Rightarrow> ustr \<Rightarrow> bool" where
  "zip_safe E name \<longleftrightarrow> 0 \<notin> set name \<and> (os_sep E = 47 \<or> os_sep E = 92 \<and> 92 \<notin> set name)"

subsection \<open>An environment for examples\<close>

text \<open>
  ASCII digits and ASCII lower-casing; a reader for which the one-byte content 1 is a
  PDF of one page with the text \<open>text_c1\<close>, and any other content a PDF of one page
  without text; a renderer that always succeeds, and one that always raises.
\<close>

definition text_c1 :: ustr where
  "text_c1 = cp ''CNPJ 1 '' @ rf_title @ cp '' debito EM PARCELAMENTO '' @ pgfn_title
     @ cp '' nada consta''"

definition ascii_lower :: "ustr \<Rightarrow> ustr" where
  "ascii_lower s = map (\<lambda>c. if 65 \<le> c \<and> c \<le> 90 then c + 32 else c) s"

definition env_ex :: env where
  "env_ex =
     \<lparr>isdigit = ascii_digit,
      lower = ascii_lower,
      pdf_pages = (\<lambda>b. if b = [1] then Inr [Some text_c1] else Inr [None]),
      doc_build = (\<lambda>doc. Inr [37, 80, 68, 70]),
      linesep = [10],
      os_sep = 47\<rparr>"

definition env_pdf_fails :: env where
  "env_pdf_fails = env_ex\<lparr>doc_build := (\<lambda>doc. Inl (LibraryError (cp ''LayoutError'')))\<rparr>"

section \<open>Inputs used as examples\<close>

definition text_c8 :: ustr where
  "text_c8 = pgfn_title @ cp '' EM PARCELAMENTO '' @ rf_title @ cp '' EM PARCELAMENTO''"

definition fname_c2 :: ustr where "fname_c2 = cp ''123456789012345.pdf''"
definition key_c2 :: ustr where "key_c2 = cp ''23456789012345''"
definition mapping_text_c2 :: ustr where "mapping_text_c2 = cp ''Acme'' @ [9] @ cp ''23.456.789/0123-45''"
definition mapping_c2 :: dict where "mapping_c2 = [(cp ''23456789012345'', cp ''Acme'')]"
definition mapping_text_c3 :: ustr where
  "mapping_text_c3 = cp ''Acme Corp'' @ [9] @ cp ''11.222.333/0001-44'' @ [9] @ cp ''MG''"
definition mapping_text_c9 :: ustr where
  "mapping_text_c9 = cp ''Acme Corp'' @ [9] @ cp ''11.222.333/0001-44'' @ [10] @ cp ''Filial'' @ [9] @ cp ''123''"
definition mapping_c9 :: dict where
  "mapping_c9 = [(cp ''11222333000144'', cp ''Acme Corp''), (cp ''123'', cp ''Filial'')]"
definition fname_c9 :: ustr where "fname_c9 = cp ''11222333000144_report.pdf''"


definition zip_c4 :: "zip_entry list" where
  "zip_c4 =
     [\<lparr>filename = cp ''11222333000144_report.pdf'', data = [1]\<rparr>,
      \<lparr>filename = cp ''relatorio.PDF'', data = [2]\<rparr>,
      \<lparr>filename = cp ''leia-me.txt'', data = [3]\<rparr>]"

definition mapping_text_c4 :: ustr where
  "mapping_text_c4 = cp ''Acme Corp'' @ [9] @ cp ''11.222.333/0001-44''"

definition mapping_c4 :: dict where
  "mapping_c4 = [(cp ''11222333000144'', cp ''Acme Corp'')]"

definition zip_c6 :: "zip_entry list" where
  "zip_c6 = [\<lparr>filename = cp ''relatorio.pdf'', data = [2]\<rparr>]"

definition st_c4 :: loop_state where
  "st_c4 =
     \<lparr>results = [\<lparr>empresa = cp ''Acme Corp'', rf = True, pgfn = False\<rparr>,
                 \<lparr>empresa = desconhecida, rf = False, pgfn = False\<rparr>],
      matched_files = [(cp ''Acme Corp.pdf'', [1])],
      unmatched_files = [(cp ''relatorio.PDF'', [2])]\<rparr>"

definition df_c4 :: dataframe where
  "df_c4 = \<lparr>columns = header, df_rows = [[cp ''Acme Corp'', cp ''Sim'', cp ''N'' @ [227] @ cp ''o'']]\<rparr>"

definition csv_c4 :: bytes where
  "csv_c4 = map of_nat (cp ''Empresa,Parcelamento RF,Parcelamento PGFN'' @ [10]
              @ cp ''Acme Corp,Sim,N'' @ [195, 163] @ cp ''o'' @ [10])"

definition zip_out_c4 :: "(ustr \<times> bytes) list" where
  "zip_out_c4 = [(cp ''renomeados/Acme Corp.pdf'', [1]), (cp ''nao_encontrados/relatorio.PDF'', [2])]"

definition out_c4 :: outputs where
  "out_c4 = \<lparr>st_dataframe = df_c4, csv = csv_c4, pdf = Some [37, 80, 68, 70], st_error = [],
             zip_out = zip_out_c4\<rparr>"

definition out_c7 :: outputs where
  "out_c7 = \<lparr>st_dataframe = df_c4, csv = csv_c4, pdf = None,
             st_error = [cp ''Erro ao gerar PDF: LayoutError''], zip_out = zip_out_c4\<rparr>"

definition out_c6 :: outputs where
  "out_c6 = \<lparr>st_dataframe = \<lparr>columns = [], df_rows = []\<rparr>, csv = [10],
             pdf = Some [37, 80, 68, 70], st_error = [],
             zip_out = [(cp ''nao_encontrados/relatorio.pdf'', [2])]\<rparr>"

definition mapping_text_c10 :: ustr where
  "mapping_text_c10 = cp ''Acme Corp'' @ [9] @ cp ''11.222.333/0001-44'' @ [10]
     @ cp ''Beta Ltda'' @ [9] @ cp ''22.333.444/0001-55''"

definition mapping_c10 :: dict where
  "mapping_c10 = [(cp ''11222333000144'', cp ''Acme Corp''),
                  (cp ''22333444000155'', cp ''Beta Ltda'')]"

definition entry_b :: zip_entry where
  "entry_b = \<lparr>filename = cp ''b.pdf'', data = [2]\<rparr>"

definition entry_beta :: zip_entry where
  "entry_beta = \<lparr>filename = cp ''22333444000155_x.pdf'', data = [1]\<rparr>"

definition entry_txt :: zip_entry where
  "entry_txt = \<lparr>filename = cp ''leia-me.txt'', data = [3]\<rparr>"

definition entry_jan :: zip_entry where
  "entry_jan = \<lparr>filename = cp ''11222333000144_jan.pdf'', data = [2]\<rparr>"

definition entry_a :: zip_entry where
  "entry_a = \<lparr>filename = cp ''a.PDF'', data = [1]\<rparr>"

definition entry_fev :: zip_entry where
  "entry_fev = \<lparr>filename = cp ''11222333000144_fev.pdf'', data = [1]\<rparr>"

definition zip_c10 :: "zip_entry list" where
  "zip_c10 = [entry_b, entry_beta, entry_txt, entry_jan, entry_a, entry_fev]"

definition nao :: ustr where
  "nao = cp ''N'' @ [227] @ cp ''o''"

definition df_c10 :: dataframe where
  "df_c10 = \<lparr>columns = header,
              df_rows = [[cp ''Beta Ltda'', cp ''Sim'', nao],
                         [cp ''Acme Corp'', nao, nao],
                         [cp ''Acme Corp'', cp ''Sim'', nao]]\<rparr>"

definition csv_c10 :: bytes where
  "csv_c10 = map of_nat (cp ''Empresa,Parcelamento RF,Parcelamento PGFN'' @ [10]
              @ cp ''Beta Ltda,Sim,N'' @ [195, 163] @ cp ''o'' @ [10]
              @ cp ''Acme Corp,N'' @ [195, 163] @ cp ''o,N'' @ [195, 163] @ cp ''o'' @ [10]
              @ cp ''Acme Corp,Sim,N'' @ [195, 163] @ cp ''o'' @ [10])"

definition zip_out_c10 :: "(ustr \<times> bytes) list" where
  "zip_out_c10 =
     [(cp ''renomeados/Beta Ltda.pdf'', [1]),
      (cp ''renomeados/Acme Corp.pdf'', [2]),
      (cp ''renomeados/Acme Corp.pdf'', [1]),
      (cp ''nao_encontrados/b.pdf'', [2]),
      (cp ''nao_encontrados/a.PDF'', [1])]"

definition out_c10 :: outputs where
  "out_c10 = \<lparr>st_dataframe = df_c10, csv = csv_c10, pdf = Some [37, 80, 68, 70],
              st_error = [], zip_out = zip_out_c10\<rparr>"

definition st_c10 :: loop_state where
  "st_c10 =
     \<lparr>results = [\<lparr>empresa = desconhecida, rf = False, pgfn = False\<rparr>,
                 \<lparr>empresa = cp ''Beta Ltda'', rf = True, pgfn = False\<rparr>,
                 \<lparr>empresa = cp ''Acme Corp'', rf = False, pgfn = False\<rparr>,
                 \<lparr>empresa = desconhecida, rf = True, pgfn = False\<rparr>,
                 \<lparr>empresa = cp ''Acme Corp'', rf = True, pgfn = False\<rparr>],
      matched_files = [(cp ''Beta Ltda.pdf'', [1]), (cp ''Acme Corp.pdf'', [2]),
                       (cp ''Acme Corp.pdf'', [1])],
      unmatched_files = [(cp ''b.pdf'', [2]), (cp ''a.PDF'', [1])]\<rparr>"

definition mapping_text_nul :: ustr where
  "mapping_text_nul = [65, 0, 66] @ [9] @ cp ''11.222.333/0001-44''"

definition mapping_nul :: dict where
  "mapping_nul = [(cp ''11222333000144'', [65, 0, 66])]"

definition zip_nul :: "zip_entry list" where
  "zip_nul = [\<lparr>filename = cp ''11222333000144.pdf'', data = [1]\<rparr>]"

definition st_nul :: loop_state where
  "st_nul =
     \<lparr>results = [\<lparr>empresa = [65, 0, 66], rf = True, pgfn = False\<rparr>],
      matched_files = [([65, 0, 66] @ cp ''.pdf'', [1])],
      unmatched_files = []\<rparr>"

definition df_nul :: dataframe where
  "df_nul = \<lparr>columns = header, df_rows = [[[65, 0, 66], cp ''Sim'', nao]]\<rparr>"

definition csv_nul :: bytes where
  "csv_nul = map of_nat (cp ''Empresa,Parcelamento RF,Parcelamento PGFN'' @ [10]
              @ [65, 0, 66] @ cp '',Sim,N'' @ [195, 163] @ cp ''o'' @ [10])"

definition out_nul :: outputs where
  "out_nul =
     \<lparr>st_dataframe = df_nul, csv = csv_nul, pdf = Some [37, 80, 68, 70], st_error = [],
      zip_out = [(cp ''renomeados/A'', [1])]\<rparr>"

section \<open>Facts about searching and slicing\<close>

lemma contains_sublist: "contains sub s \<longleftrightarrow> sublist sub s"
  by (induction s) (simp_all add: sublist_Cons_right)

lemma occurs_at_prefix: "occurs_at sub s k \<longleftrightarrow> k \<le> length s \<and> prefix sub (drop k s)"
proof
  assume "occurs_at sub s k"
  then have a: "k + length sub \<le> length s" and b: "take (length sub) (drop k s) = sub"
    by (simp_all add: occurs_at_def)
  have "prefix (take (length sub) (drop k s)) (drop k s)"
    by (rule take_is_prefix)
  with a b show "k \<le> length s \<and> prefix sub (drop k s)" by simp
next
  assume h: "k \<le> length s \<and> prefix sub (drop k s)"
  then obtain r where r: "drop k s = sub @ r" by (auto simp: prefix_def)
  have "length (drop k s) = length s - k" by simp
  with r have "length s - k = length sub + length r" by simp
  with h have "k + length sub \<le> length s" by arith
  with r show "occurs_at sub s k" by (simp add: occurs_at_def)
qed

lemma occurs_at_Nil: "occurs_at sub [] k \<longleftrightarrow> sub = [] \<and> k = 0"
  by (auto simp: occurs_at_prefix)

lemma occurs_at_0: "occurs_at sub s 0 \<longleftrightarrow> prefix sub s"
  by (simp add: occurs_at_prefix)

lemma occurs_at_Suc: "occurs_at sub (c # s) (Suc k) \<longleftrightarrow> occurs_at sub s k"
  by (simp add: occurs_at_prefix)

lemma occurs_at_sublist: "(\<exists>k. occurs_at sub s k) \<longleftrightarrow> sublist sub s"
proof
  assume "\<exists>k. occurs_at sub s k"
  then obtain k r where "drop k s = sub @ r" by (auto simp: occurs_at_prefix prefix_def)
  then have "s = take k s @ sub @ r" by (metis append_take_drop_id)
  then show "sublist sub s" by (auto simp: sublist_def)
next
  assume "sublist sub s"
  then obtain ps ss where "s = ps @ sub @ ss" by (auto simp: sublist_def)
  then have "occurs_at sub s (length ps)" by (simp add: occurs_at_prefix)
  then show "\<exists>k. occurs_at sub s k" ..
qed

text \<open>The scan returns -1 exactly when there is no occurrence, else the least one.\<close>

lemma find_from_none: "\<not> (\<exists>k. occurs_at sub s k) \<Longrightarrow> find_from sub s i = - 1"
proof (induction s arbitrary: i)
  case Nil
  then show ?case by (simp add: occurs_at_Nil)
next
  case (Cons c s)
  from Cons.prems have "\<not> occurs_at sub (c # s) 0" by blast
  then have np: "\<not> prefix sub (c # s)" by (simp add: occurs_at_0)
  have "\<not> occurs_at sub s k" for k
  proof -
    from Cons.prems have "\<not> occurs_at sub (c # s) (Suc k)" by blast
    then show ?thesis by (simp add: occurs_at_Suc)
  qed
  then have "find_from sub s (Suc i) = - 1" by (intro Cons.IH) blast
  with np show ?case by simp
qed

lemma find_from_first:
  "occurs_at sub s k \<Longrightarrow> \<forall>j<k. \<not> occurs_at sub s j \<Longrightarrow> find_from sub s i = int (i + k)"
proof (induction s arbitrary: i k)
  case Nil
  then show ?case by (simp add: occurs_at_Nil)
next
  case (Cons c s)
  show ?case
  proof (cases k)
    case 0
    with Cons.prems show ?thesis by (simp add: occurs_at_0)
  next
    case (Suc k')
    with Cons.prems have "\<not> occurs_at sub (c # s) 0" by blast
    then have np: "\<not> prefix sub (c # s)" by (simp add: occurs_at_0)
    from Suc Cons.prems have o: "occurs_at sub s k'"
      by (simp add: occurs_at_Suc)
    have "\<forall>j<k'. \<not> occurs_at sub s j"
    proof (intro allI impI)
      fix j assume "j < k'"
      then have "Suc j < k" using Suc by simp
      with Cons.prems have "\<not> occurs_at sub (c # s) (Suc j)" by blast
      then show "\<not> occurs_at sub s j" by (simp add: occurs_at_Suc)
    qed
    with Cons.IH [OF o, of "Suc i"] np Suc show ?thesis by simp
  qed
qed

lemma first_occurrence_Some:
  "first_occurrence sub s = Some k \<longleftrightarrow> occurs_at sub s k \<and> (\<forall>j<k. \<not> occurs_at sub s j)"
proof
  assume "first_occurrence sub s = Some k"
  then have ex: "\<exists>k. occurs_at sub s k" and k: "k = (LEAST k. occurs_at sub s k)"
    by (auto simp: first_occurrence_def split: if_splits)
  from ex k have "occurs_at sub s k" by (auto intro: LeastI)
  moreover from k have "\<forall>j<k. \<not> occurs_at sub s j" by (auto dest: not_less_Least)
  ultimately show "occurs_at sub s k \<and> (\<forall>j<k. \<not> occurs_at sub s j)" by simp
next
  assume h: "occurs_at sub s k \<and> (\<forall>j<k. \<not> occurs_at sub s j)"
  then have "(LEAST k. occurs_at sub s k) = k"
    by (intro Least_equality) (auto simp: not_less [symmetric])
  with h show "first_occurrence sub s = Some k"
    by (auto simp: first_occurrence_def)
qed

lemma first_occurrence_None: "first_occurrence sub s = None \<longleftrightarrow> \<not> sublist sub s"
  by (simp add: first_occurrence_def occurs_at_sublist)

lemma str_find_first_occurrence:
  "str_find text sub = (case first_occurrence sub text of None \<Rightarrow> - 1 | Some k \<Rightarrow> int k)"
proof (cases "first_occurrence sub text")
  case None
  then have "\<not> (\<exists>k. occurs_at sub text k)"
    by (simp add: first_occurrence_def split: if_splits)
  with None show ?thesis by (simp add: str_find_def find_from_none)
next
  case (Some k)
  then have "occurs_at sub text k" and "\<forall>j<k. \<not> occurs_at sub text j"
    by (simp_all add: first_occurrence_Some)
  then have "find_from sub text 0 = int (0 + k)" by (rule find_from_first)
  with Some show ?thesis by (simp add: str_find_def)
qed

lemma first_occurrence_le: "first_occurrence sub s = Some k \<Longrightarrow> k \<le> length s"
  by (simp add: first_occurrence_Some occurs_at_def)

lemma substring_take_drop: "j \<le> length s \<Longrightarrow> substring s i j = take (j - i) (drop i s)"
  by (auto simp: substring_def intro!: nth_equalityI)

lemma slice_nat:
  "i \<le> length s \<Longrightarrow> j \<le> length s \<Longrightarrow> slice s (int i) (int j) = substring s i j"
  by (simp add: slice_def slice_index_def Let_def substring_take_drop)

lemma slice_from_nat: "i \<le> length s \<Longrightarrow> slice_from s (int i) = substring s i (length s)"
  by (simp add: slice_from_def slice_index_def substring_take_drop)

lemma rf_section_spec: "rf_section text = spec_rf_section text"
  by (auto simp: rf_section_def spec_rf_section_def str_find_first_occurrence Let_def
      slice_nat first_occurrence_le split: option.splits)

lemma pgfn_section_spec: "pgfn_section text = spec_pgfn_section text"
  by (auto simp: pgfn_section_def spec_pgfn_section_def str_find_first_occurrence Let_def
      slice_from_nat first_occurrence_le split: option.splits)

lemma substring_empty: "j \<le> i \<Longrightarrow> substring s i j = []"
  by (simp add: substring_def)

lemma contains_Nil_iff: "contains sub [] \<longleftrightarrow> sub = []"
  by simp

lemma first_occurrence_str_find:
  "first_occurrence sub s =
     (if str_find s sub = - 1 then None else Some (nat (str_find s sub)))"
  by (simp add: str_find_first_occurrence split: option.splits)

lemma em_parcelamento_not_Nil: "em_parcelamento \<noteq> []"
  by (simp add: em_parcelamento_def cp_def)

section \<open>Claims about the classifier\<close>

text \<open>
  C1. For every input text, \<open>analyze_text\<close> returns the pair of flags in which the first
  is true exactly when "EM PARCELAMENTO" is a substring of the Receita Federal section
  and the second exactly when "Pend\<^verbatim>\<open>\\u00ea\<close>ncia - Parcelamento" is a substring of the
  PGFN section, where the Receita Federal section is the substring from the first
  occurrence of its title to the first occurrence of the PGFN title (empty when either
  title is absent) and the PGFN section runs from the first occurrence of the PGFN title
  to the end of the text (empty when that title is absent).
\<close>

theorem analyze_text_sections:
  "analyze_text text =
     (sublist em_parcelamento (spec_rf_section text),
      sublist pendencia_parcelamento (spec_pgfn_section text))"
  by (auto simp: analyze_text_def Let_def contains_sublist rf_section_spec pgfn_section_spec)

theorem analyze_text_sections_witness:
  "analyze_text text_c1 = (True, False)
   \<and> sublist em_parcelamento (spec_rf_section text_c1)
   \<and> \<not> sublist pendencia_parcelamento (spec_pgfn_section text_c1)"
proof -
  have "analyze_text text_c1 = (True, False)" by code_simp
  with analyze_text_sections [of text_c1] show ?thesis by simp
qed

text \<open>
  C5. For every input text, \<open>analyze_text\<close> agrees with the classifier that leaves out
  the "BASE INDISPON\<^verbatim>\<open>\\u00cd\<close>VEL"/"Parcelamento" check and the "N\<^verbatim>\<open>\\u00e3\<close>o foram
  detectadas ..." check: the two branches never change a returned flag.
\<close>

theorem analyze_text_dead_branches:
  "analyze_text text = analyze_text_simplified text"
  by (auto simp: analyze_text_def analyze_text_simplified_def Let_def)

theorem analyze_text_dead_branches_witness:
  "analyze_text text_c1 = analyze_text_simplified text_c1
   \<and> analyze_text_simplified text_c1 = (True, False)"
proof -
  have "analyze_text_simplified text_c1 = (True, False)" by code_simp
  with analyze_text_dead_branches [of text_c1] show ?thesis by simp
qed

text \<open>
  C8. When both titles occur and the first occurrence of the Receita Federal title lies
  strictly after the first occurrence of the PGFN title, the Receita Federal section
  computed by \<open>analyze_text\<close> is empty and the Receita Federal flag is false, whatever
  else the text holds.
\<close>

theorem rf_title_after_pgfn_title:
  assumes "first_occurrence rf_title text = Some s1"
    and "first_occurrence pgfn_title text = Some s2"
    and "s2 < s1"
  shows "rf_section text = [] \<and> fst (analyze_text text) = False"
proof -
  from assms have "spec_rf_section text = []"
    by (simp add: spec_rf_section_def substring_empty)
  then have e: "rf_section text = []" by (simp add: rf_section_spec)
  then have "fst (analyze_text text) = False"
    by (simp add: analyze_text_def Let_def em_parcelamento_not_Nil)
  with e show ?thesis by simp
qed

theorem rf_title_after_pgfn_title_witness:
  "first_occurrence rf_title text_c8 = Some 77
   \<and> first_occurrence pgfn_title text_c8 = Some 0
   \<and> (0::nat) < 77
   \<and> contains em_parcelamento text_c8
   \<and> rf_section text_c8 = [] \<and> fst (analyze_text text_c8) = False"
proof -
  have f1: "str_find text_c8 rf_title = 77" by code_simp
  have f2: "str_find text_c8 pgfn_title = 0" by code_simp
  have h1: "first_occurrence rf_title text_c8 = Some 77"
    by (simp add: first_occurrence_str_find f1)
  have h2: "first_occurrence pgfn_title text_c8 = Some 0"
    by (simp add: first_occurrence_str_find f2)
  have h3: "(0::nat) < 77" by simp
  have c: "contains em_parcelamento text_c8" by code_simp
  from rf_title_after_pgfn_title [OF h1 h2 h3] h1 h2 c show ?thesis by simp
qed

section \<open>Facts about the resolver\<close>

lemma d14_at_take:
  "d14_at dg s k \<longleftrightarrow> k + 14 \<le> length s \<and> list_all dg (take 14 (drop k s))"
proof
  assume "d14_at dg s k"
  then obtain d where d: "length d = 14" "list_all dg d" "k + length d \<le> length s"
    "take (length d) (drop k s) = d"
    by (auto simp: d14_at_def is_d14_def occurs_at_def)
  then show "k + 14 \<le> length s \<and> list_all dg (take 14 (drop k s))" by simp
next
  assume h: "k + 14 \<le> length s \<and> list_all dg (take 14 (drop k s))"
  let ?d = "take 14 (drop k s)"
  from h have "14 \<le> length s - k" by arith
  then have "length ?d = 14" by simp
  with h have "is_d14 dg ?d \<and> occurs_at ?d s k"
    by (simp add: is_d14_def occurs_at_def)
  then show "d14_at dg s k" unfolding d14_at_def by blast
qed

lemma d14_at_Nil: "\<not> d14_at dg [] k"
  by (simp add: d14_at_take)

lemma d14_at_0: "d14_at dg s 0 \<longleftrightarrow> 14 \<le> length s \<and> list_all dg (take 14 s)"
  by (simp add: d14_at_take)

lemma d14_at_Suc: "d14_at dg (c # s) (Suc k) \<longleftrightarrow> d14_at dg s k"
  by (simp add: d14_at_take add.commute)

lemma search_d14_Cons_no:
  "\<not> (14 \<le> length (c # s) \<and> list_all dg (take 14 (c # s))) \<Longrightarrow>
     search_d14 dg (c # s) = search_d14 dg s"
  by (simp only: search_d14.simps if_False)

lemma search_d14_Cons_yes:
  "14 \<le> length (c # s) \<and> list_all dg (take 14 (c # s)) \<Longrightarrow>
     search_d14 dg (c # s) = Some (take 14 (c # s))"
  by (subst search_d14.simps) (rule if_P)

lemma search_d14_first:
  "d14_at dg s k \<Longrightarrow> \<forall>j<k. \<not> d14_at dg s j \<Longrightarrow> search_d14 dg s = Some (take 14 (drop k s))"
proof (induction s arbitrary: k)
  case Nil
  then show ?case by (simp add: d14_at_Nil)
next
  case (Cons c s)
  show ?case
  proof (cases k)
    case 0
    with Cons.prems(1) have "d14_at dg (c # s) 0" by simp
    then have "14 \<le> length (c # s) \<and> list_all dg (take 14 (c # s))"
      unfolding d14_at_0 .
    then have "search_d14 dg (c # s) = Some (take 14 (c # s))" by (rule search_d14_Cons_yes)
    with 0 show ?thesis by simp
  next
    case (Suc k')
    with Cons.prems(2) have "\<not> d14_at dg (c # s) 0" by blast
    then have n0: "\<not> (14 \<le> length (c # s) \<and> list_all dg (take 14 (c # s)))"
      unfolding d14_at_0 .
    from Suc Cons.prems(1) have a: "d14_at dg s k'" by (simp add: d14_at_Suc)
    have b: "\<forall>j<k'. \<not> d14_at dg s j"
    proof (intro allI impI)
      fix j assume "j < k'"
      then have "Suc j < k" using Suc by simp
      with Cons.prems(2) have "\<not> d14_at dg (c # s) (Suc j)" by blast
      then show "\<not> d14_at dg s j" by (simp add: d14_at_Suc)
    qed
    from Cons.IH [OF a b] have "search_d14 dg s = Some (take 14 (drop k' s))" .
    with search_d14_Cons_no [OF n0] Suc show ?thesis by simp
  qed
qed

lemma search_d14_none: "\<forall>k. \<not> d14_at dg s k \<Longrightarrow> search_d14 dg s = None"
proof (induction s)
  case Nil
  then show ?case by simp
next
  case (Cons c s)
  from Cons.prems have "\<not> d14_at dg (c # s) 0" by blast
  then have n0: "\<not> (14 \<le> length (c # s) \<and> list_all dg (take 14 (c # s)))"
    unfolding d14_at_0 .
  have "\<forall>k. \<not> d14_at dg s k"
  proof
    fix k
    from Cons.prems have "\<not> d14_at dg (c # s) (Suc k)" by blast
    then show "\<not> d14_at dg s k" by (simp add: d14_at_Suc)
  qed
  with Cons.IH have "search_d14 dg s = None" by blast
  with search_d14_Cons_no [OF n0] show ?case by simp
qed

text \<open>Either no position carries fourteen digits, or there is a least one.\<close>

lemma d14_least:
  assumes "d14_at dg s k"
  obtains k0 where "d14_at dg s k0" and "\<forall>j<k0. \<not> d14_at dg s j"
proof -
  let ?k0 = "LEAST k. d14_at dg s k"
  from assms have "d14_at dg s ?k0" by (rule LeastI)
  moreover have "\<forall>j<?k0. \<not> d14_at dg s j" by (auto dest: not_less_Least)
  ultimately show ?thesis using that by blast
qed

lemma search_d14_None_iff: "search_d14 dg s = None \<longleftrightarrow> (\<forall>k. \<not> d14_at dg s k)"
proof
  assume n: "search_d14 dg s = None"
  show "\<forall>k. \<not> d14_at dg s k"
  proof (intro allI notI)
    fix k assume "d14_at dg s k"
    then obtain k0 where "d14_at dg s k0" and "\<forall>j<k0. \<not> d14_at dg s j"
      by (rule d14_least)
    then have "search_d14 dg s = Some (take 14 (drop k0 s))" by (rule search_d14_first)
    with n show False by simp
  qed
next
  assume "\<forall>k. \<not> d14_at dg s k"
  then show "search_d14 dg s = None" by (rule search_d14_none)
qed

lemma search_d14_Some_iff:
  "search_d14 dg s = Some d \<longleftrightarrow>
     (\<exists>k. d14_at dg s k \<and> (\<forall>j<k. \<not> d14_at dg s j) \<and> d = take 14 (drop k s))"
proof
  assume sd: "search_d14 dg s = Some d"
  then have "\<not> (\<forall>k. \<not> d14_at dg s k)" by (simp add: search_d14_None_iff [symmetric])
  then obtain k where "d14_at dg s k" by blast
  then obtain k0 where k0: "d14_at dg s k0" "\<forall>j<k0. \<not> d14_at dg s j"
    by (rule d14_least)
  then have "search_d14 dg s = Some (take 14 (drop k0 s))" by (rule search_d14_first)
  with sd have "d = take 14 (drop k0 s)" by simp
  with k0 show "\<exists>k. d14_at dg s k \<and> (\<forall>j<k. \<not> d14_at dg s j) \<and> d = take 14 (drop k s)"
    by blast
next
  assume "\<exists>k. d14_at dg s k \<and> (\<forall>j<k. \<not> d14_at dg s j) \<and> d = take 14 (drop k s)"
  then obtain k where "d14_at dg s k" "\<forall>j<k. \<not> d14_at dg s j" "d = take 14 (drop k s)"
    by blast
  then show "search_d14 dg s = Some d" by (simp add: search_d14_first)
qed

lemma search_d14_is_d14: "search_d14 dg s = Some d \<Longrightarrow> is_d14 dg d"
  by (auto simp: search_d14_Some_iff d14_at_take is_d14_def)

lemma occurs_at_d14: "is_d14 dg d \<Longrightarrow> occurs_at d s k \<Longrightarrow> d14_at dg s k \<and> d = take 14 (drop k s)"
  by (auto simp: d14_at_def is_d14_def occurs_at_def)

lemma leftmost_d14_search: "leftmost_d14 dg s d \<longleftrightarrow> search_d14 dg s = Some d"
proof
  assume "leftmost_d14 dg s d"
  then obtain k where d: "is_d14 dg d" and o: "occurs_at d s k"
    and l: "\<not> (\<exists>j. j < k \<and> d14_at dg s j)"
    by (auto simp: leftmost_d14_def)
  from d o have "d14_at dg s k" and "d = take 14 (drop k s)"
    by (simp_all add: occurs_at_d14)
  moreover from l have "\<forall>j<k. \<not> d14_at dg s j" by blast
  ultimately show "search_d14 dg s = Some d" by (simp add: search_d14_first)
next
  assume sd: "search_d14 dg s = Some d"
  then obtain k where k: "d14_at dg s k" "\<forall>j<k. \<not> d14_at dg s j" "d = take 14 (drop k s)"
    by (auto simp: search_d14_Some_iff)
  from k(1) obtain d' where d': "is_d14 dg d'" "occurs_at d' s k"
    by (auto simp: d14_at_def)
  then have "d' = take 14 (drop k s)" by (simp add: occurs_at_d14)
  with k d' have "is_d14 dg d" "occurs_at d s k" by simp_all
  moreover from k(2) have "\<not> (\<exists>j. j < k \<and> d14_at dg s j)" by blast
  ultimately show "leftmost_d14 dg s d" unfolding leftmost_d14_def by blast
qed

lemma no_d14_search: "\<not> (\<exists>d. is_d14 dg d \<and> sublist d s) \<longleftrightarrow> search_d14 dg s = None"
proof -
  have "(\<exists>d. is_d14 dg d \<and> sublist d s) \<longleftrightarrow> (\<exists>k. d14_at dg s k)"
    by (auto simp: d14_at_def occurs_at_sublist [symmetric])
  then show ?thesis by (simp add: search_d14_None_iff)
qed

text \<open>
  What reading one line does: nothing for a line without a tab, one update of the dict
  for a line with exactly one tab, and \<^verbatim>\<open>ValueError\<close> for a line with two or more; a
  later line with the same key replaces the name of an earlier one.
\<close>

lemma contains_singleton: "contains [c] s \<longleftrightarrow> c \<in> set s"
  by (induction s) auto

lemma split_from_not_Nil: "split_from sep cur s \<noteq> []"
  by (induction s arbitrary: cur) simp_all

lemma split_from_none: "sep \<notin> set a \<Longrightarrow> split_from sep cur a = [cur @ a]"
  by (induction a arbitrary: cur) auto

lemma split_from_sep:
  "sep \<notin> set a \<Longrightarrow> split_from sep cur (a @ sep # rest) = (cur @ a) # split_from sep [] rest"
  by (induction a arbitrary: cur) auto

lemma parse_line_no_tab: "9 \<notin> set line \<Longrightarrow> parse_line dg mapping line = Inr mapping"
  by (simp add: parse_line_def contains_singleton)

lemma parse_line_one_tab:
  assumes "9 \<notin> set name" and "9 \<notin> set cnpj"
  shows "parse_line dg mapping (name @ 9 # cnpj) =
           Inr (AList.update (filter dg cnpj) (strip name) mapping)"
proof -
  from assms have "str_split 9 (name @ 9 # cnpj) = [name, cnpj]"
    by (simp add: str_split_def split_from_sep split_from_none)
  then show ?thesis
    by (simp add: parse_line_def contains_singleton re_sub_non_digits_def)
qed

lemma parse_line_two_tabs:
  assumes "9 \<notin> set a" and "9 \<notin> set b"
  shows "parse_line dg mapping (a @ 9 # b @ 9 # c) =
           Inl (ValueError (cp ''too many values to unpack (expected 2)''))"
proof -
  from assms have "str_split 9 (a @ 9 # b @ 9 # c) = a # b # split_from 9 [] c"
    by (simp add: str_split_def split_from_sep)
  moreover have "split_from 9 [] c \<noteq> []" by (rule split_from_not_Nil)
  ultimately show ?thesis
    by (cases "split_from 9 [] c") (simp_all add: parse_line_def contains_singleton)
qed

lemma map_of_update_last:
  "map_of (AList.update k v2 (AList.update k v1 mapping)) k = Some v2"
  by (simp add: update_conv')

text \<open>The search depends on the digit class only at the characters of the name.\<close>

lemma search_d14_cong:
  assumes "\<And>c. c \<in> set s \<Longrightarrow> dg c = dg' c"
  shows "search_d14 dg s = search_d14 dg' s"
  using assms
proof (induction s)
  case Nil
  then show ?case by simp
next
  case (Cons c s)
  have "list_all dg (take 14 (c # s)) = list_all dg' (take 14 (c # s))"
  proof -
    have "\<And>x. x \<in> set (take 14 (c # s)) \<Longrightarrow> dg x = dg' x"
      using Cons.prems by (meson in_set_takeD)
    then show ?thesis by (simp only: list_all_iff) blast
  qed
  moreover have "search_d14 dg s = search_d14 dg' s"
    using Cons by simp
  ultimately show ?case by (simp only: search_d14.simps)
qed

text \<open>The definitions unfolded when an example is evaluated.\<close>

lemmas eval_defs = splitlines_def cp_def is_linebreak_def parse_mapping_def parse_line_def
  str_split_def strip_def is_space_def re_sub_non_digits_def ascii_digit_def
  resolve_empresa_def mapping_get_def desconhecida_def is_d14_def

lemma resolve_empresa_known:
  assumes "resolve_empresa dg mapping fname \<noteq> desconhecida"
  shows "\<exists>k. search_d14 dg fname = Some k
           \<and> map_of mapping k = Some (resolve_empresa dg mapping fname)"
  using assms
  by (auto simp: resolve_empresa_def mapping_get_def split: option.splits)

section \<open>Claims about the resolver\<close>

text \<open>
  C2. For every file name and mapping: when the name holds no 14-digit substring the
  resolver yields "Desconhecida"; when the leftmost 14-digit substring of the name (the
  match the search returns) is a key of the mapping, the resolver yields the company
  mapped to it.
\<close>

theorem resolve_empresa_leftmost:
  "(\<not> (\<exists>d. is_d14 dg d \<and> sublist d fname) \<longrightarrow>
      resolve_empresa dg mapping fname = desconhecida)
   \<and> (leftmost_d14 dg fname d \<and> map_of mapping d = Some name \<longrightarrow>
        resolve_empresa dg mapping fname = name)"
proof (intro conjI impI)
  assume "\<not> (\<exists>d. is_d14 dg d \<and> sublist d fname)"
  then have "search_d14 dg fname = None" by (simp only: no_d14_search)
  then show "resolve_empresa dg mapping fname = desconhecida"
    by (simp add: resolve_empresa_def mapping_get_def)
next
  assume "leftmost_d14 dg fname d \<and> map_of mapping d = Some name"
  then have "search_d14 dg fname = Some d" and "map_of mapping d = Some name"
    by (simp_all add: leftmost_d14_search)
  then show "resolve_empresa dg mapping fname = name"
    by (simp add: resolve_empresa_def mapping_get_def)
qed


theorem resolve_empresa_leftmost_witness:
  "\<not> (\<exists>d. is_d14 ascii_digit d \<and> sublist d (cp ''relatorio.pdf''))
   \<and> resolve_empresa ascii_digit mapping_c9 (cp ''relatorio.pdf'') = desconhecida
   \<and> leftmost_d14 ascii_digit fname_c9 (cp ''11222333000144'')
   \<and> map_of mapping_c9 (cp ''11222333000144'') = Some (cp ''Acme Corp'')
   \<and> resolve_empresa ascii_digit mapping_c9 fname_c9 = cp ''Acme Corp''"
proof -
  have h1: "\<not> (\<exists>d. is_d14 ascii_digit d \<and> sublist d (cp ''relatorio.pdf''))"
    unfolding no_d14_search by (simp add: cp_def ascii_digit_def)
  have h2: "leftmost_d14 ascii_digit fname_c9 (cp ''11222333000144'')"
    unfolding leftmost_d14_search by (simp add: cp_def ascii_digit_def fname_c9_def)
  have h3: "map_of mapping_c9 (cp ''11222333000144'') = Some (cp ''Acme Corp'')"
    by (simp add: mapping_c9_def cp_def)
  from resolve_empresa_leftmost [where dg = ascii_digit and fname = "cp ''relatorio.pdf''"
      and mapping = mapping_c9]
    resolve_empresa_leftmost [where dg = ascii_digit and fname = fname_c9
      and mapping = mapping_c9 and d = "cp ''11222333000144''" and name = "cp ''Acme Corp''"]
    h1 h2 h3
  show ?thesis by blast
qed

text \<open>
  The claim as first stated, with any 14-digit substring that is a key: the name
  \<^verbatim>\<open>123456789012345.pdf\<close> holds the key \<^verbatim>\<open>23456789012345\<close> from its second character on,
  the search returns \<^verbatim>\<open>12345678901234\<close>, which is no key, and the resolver yields
  "Desconhecida".
\<close>

theorem resolve_empresa_any_match_counterexample:
  "is_d14 ascii_digit key_c2 \<and> sublist key_c2 fname_c2
   \<and> parse_mapping ascii_digit mapping_text_c2 = Inr mapping_c2
   \<and> map_of mapping_c2 key_c2 = Some (cp ''Acme'')
   \<and> resolve_empresa ascii_digit mapping_c2 fname_c2 = desconhecida
   \<and> desconhecida \<noteq> cp ''Acme''"
proof -
  have "is_d14 ascii_digit key_c2" by (simp add: eval_defs key_c2_def)
  moreover have "sublist key_c2 fname_c2"
    unfolding contains_sublist [symmetric] by (simp add: key_c2_def fname_c2_def cp_def)
  moreover have "parse_mapping ascii_digit mapping_text_c2 = Inr mapping_c2"
    by (simp add: eval_defs mapping_text_c2_def mapping_c2_def)
  moreover have "map_of mapping_c2 key_c2 = Some (cp ''Acme'')"
    by (simp add: mapping_c2_def key_c2_def)
  moreover have "resolve_empresa ascii_digit mapping_c2 fname_c2 = desconhecida"
    by (simp add: eval_defs mapping_c2_def fname_c2_def)
  moreover have "desconhecida \<noteq> cp ''Acme''" by (simp add: eval_defs)
  ultimately show ?thesis by blast
qed

text \<open>
  C3. Reading the mapping is claimed to raise no error on any text. A line with two tab
  characters splits into three parts, and unpacking them into \<^verbatim>\<open>name, cnpj\<close> raises
  \<^verbatim>\<open>ValueError\<close>, whatever the digit class: here on the text
  \<^verbatim>\<open>Acme Corp<TAB>11.222.333/0001-44<TAB>MG\<close>.
\<close>

theorem parse_mapping_three_fields:
  "parse_mapping dg mapping_text_c3 =
     Inl (ValueError (cp ''too many values to unpack (expected 2)''))"
  by (simp add: splitlines_def is_linebreak_def parse_mapping_def parse_line_def
      str_split_def mapping_text_c3_def cp_def)

text \<open>
  C9. For every mapping text that is read without error and every file name: when the
  resolver yields a company other than "Desconhecida", the key it found in the mapping
  is the string the search returned, of exactly 14 digits; so an entry whose key has not
  exactly 14 characters is the search result of no file name.
\<close>

theorem matched_key_has_14_digits:
  assumes "parse_mapping dg mapping_text = Inr mapping"
  shows "(resolve_empresa dg mapping fname \<noteq> desconhecida \<longrightarrow>
            (\<exists>k. search_d14 dg fname = Some k
                 \<and> map_of mapping k = Some (resolve_empresa dg mapping fname)
                 \<and> length k = 14 \<and> list_all dg k))
         \<and> ((k', v) \<in> set mapping \<and> length k' \<noteq> 14 \<longrightarrow> search_d14 dg f \<noteq> Some k')"
proof (intro conjI impI)
  assume "resolve_empresa dg mapping fname \<noteq> desconhecida"
  then obtain k where k: "search_d14 dg fname = Some k"
    "map_of mapping k = Some (resolve_empresa dg mapping fname)"
    using resolve_empresa_known by blast
  from k(1) have "is_d14 dg k" by (rule search_d14_is_d14)
  with k show "\<exists>k. search_d14 dg fname = Some k
                 \<and> map_of mapping k = Some (resolve_empresa dg mapping fname)
                 \<and> length k = 14 \<and> list_all dg k"
    by (auto simp: is_d14_def)
next
  assume a: "(k', v) \<in> set mapping \<and> length k' \<noteq> 14"
  show "search_d14 dg f \<noteq> Some k'"
  proof
    assume "search_d14 dg f = Some k'"
    then have "is_d14 dg k'" by (rule search_d14_is_d14)
    with a show False by (simp add: is_d14_def)
  qed
qed

theorem matched_key_has_14_digits_witness:
  "parse_mapping ascii_digit mapping_text_c9 = Inr mapping_c9
   \<and> resolve_empresa ascii_digit mapping_c9 fname_c9 = cp ''Acme Corp''
   \<and> resolve_empresa ascii_digit mapping_c9 fname_c9 \<noteq> desconhecida
   \<and> search_d14 ascii_digit fname_c9 = Some (cp ''11222333000144'')
   \<and> (cp ''123'', cp ''Filial'') \<in> set mapping_c9
   \<and> length (cp ''123'') \<noteq> 14
   \<and> search_d14 ascii_digit (cp ''123.pdf'') \<noteq> Some (cp ''123'')"
proof -
  have h: "parse_mapping ascii_digit mapping_text_c9 = Inr mapping_c9"
    by (simp add: eval_defs mapping_text_c9_def mapping_c9_def)
  have r: "resolve_empresa ascii_digit mapping_c9 fname_c9 = cp ''Acme Corp''"
    by (simp add: eval_defs mapping_c9_def fname_c9_def)
  have n: "resolve_empresa ascii_digit mapping_c9 fname_c9 \<noteq> desconhecida"
    by (simp add: eval_defs mapping_c9_def fname_c9_def)
  have s: "search_d14 ascii_digit fname_c9 = Some (cp ''11222333000144'')"
    by (simp add: eval_defs fname_c9_def)
  have m: "(cp ''123'', cp ''Filial'') \<in> set mapping_c9 \<and> length (cp ''123'') \<noteq> 14"
    by (simp add: mapping_c9_def cp_def)
  from matched_key_has_14_digits [OF h, of fname_c9 "cp ''123''" "cp ''Filial''" "cp ''123.pdf''"]
    h r n s m
  show ?thesis by simp
qed


section \<open>Facts about the batch run\<close>

lemma case_rev_last:
  "xs \<noteq> [] \<Longrightarrow> (case rev xs of [] \<Rightarrow> a | e # rest \<Rightarrow> f e) = f (last xs)"
  by (induction xs rule: rev_induct) simp_all

lemma zf_read_member:
  assumes "info \<in> set zf"
  shows "zf_read zf (filename info) = Inr (report_bytes zf info)"
proof -
  let ?es = "filter (\<lambda>e. filename e = filename info) zf"
  from assms have ne: "?es \<noteq> []" by (auto simp: filter_empty_conv)
  then show ?thesis
    unfolding zf_read_def report_bytes_def by (rule case_rev_last)
qed

lemma loop_body_other: "\<not> is_report E info \<Longrightarrow> loop_body E mapping zf st info = Inr st"
  by (simp add: loop_body_def)

lemma loop_body_report:
  assumes "is_report E info" and "info \<in> set zf"
    and "loop_body E mapping zf st info = Inr st'"
  shows "\<exists>r. report_result E mapping zf info = Inr r
          \<and> results st' = results st @ [r]
          \<and> matched_files st' = matched_files st @
               (if known E mapping info
                then [(resolve_empresa (isdigit E) mapping (filename info) @ cp ''.pdf'',
                       report_bytes zf info)]
                else [])
          \<and> unmatched_files st' = unmatched_files st @
               (if known E mapping info then [] else [(filename info, report_bytes zf info)])"
proof -
  from assms(2) have rd: "zf_read zf (filename info) = Inr (report_bytes zf info)"
    by (rule zf_read_member)
  show ?thesis
  proof (cases "extract_text_from_bytes E (report_bytes zf info)")
    case (Inl e)
    with assms(1,3) rd show ?thesis by (simp add: loop_body_def Let_def)
  next
    case (Inr body)
    with assms(1,3) rd show ?thesis
      by (cases "analyze_text body")
        (auto simp: loop_body_def Let_def report_result_def known_def split: if_splits)
  qed
qed

lemma for_infolist_lists:
  assumes "set infos \<subseteq> set zf" and "for_infolist E mapping zf st infos = Inr st'"
  shows "map Inr (results st') =
           map Inr (results st) @ map (report_result E mapping zf) (reports E infos)
       \<and> matched_files st' = matched_files st @
           map (\<lambda>i. (resolve_empresa (isdigit E) mapping (filename i) @ cp ''.pdf'',
                      report_bytes zf i))
             (filter (known E mapping) (reports E infos))
       \<and> unmatched_files st' = unmatched_files st @
           map (\<lambda>i. (filename i, report_bytes zf i))
             (filter (\<lambda>i. \<not> known E mapping i) (reports E infos))"
  using assms
proof (induction infos arbitrary: st)
  case Nil
  then show ?case by (simp add: reports_def)
next
  case (Cons info rest)
  from Cons.prems(2) obtain st1 where b: "loop_body E mapping zf st info = Inr st1"
    and l: "for_infolist E mapping zf st1 rest = Inr st'"
    by (auto split: sum.splits)
  from Cons.prems(1) have m: "info \<in> set zf" and sub: "set rest \<subseteq> set zf"
    by simp_all
  note IH = Cons.IH [OF sub l]
  show ?case
  proof (cases "is_report E info")
    case False
    with b have "st1 = st" by (simp add: loop_body_other)
    with IH False show ?thesis by (simp add: reports_def)
  next
    case True
    from loop_body_report [OF True m b] obtain r where
      r: "report_result E mapping zf info = Inr r"
      "results st1 = results st @ [r]"
      "matched_files st1 = matched_files st @
               (if known E mapping info
                then [(resolve_empresa (isdigit E) mapping (filename info) @ cp ''.pdf'',
                       report_bytes zf info)]
                else [])"
      "unmatched_files st1 = unmatched_files st @
               (if known E mapping info then [] else [(filename info, report_bytes zf info)])"
      by blast
    with IH True show ?thesis by (simp add: reports_def)
  qed
qed

lemma filter_map_Inr:
  assumes "map Inr rs = map f xs"
    and "\<And>x r. f x = Inr r \<Longrightarrow> P r = Q x"
  shows "map Inr (filter P rs) = map f (filter Q xs)"
  using assms(1)
proof (induction xs arbitrary: rs)
  case Nil
  then show ?case by simp
next
  case (Cons x xs)
  then obtain r rs' where rs: "rs = r # rs'" and fx: "f x = Inr r"
    and rest: "map Inr rs' = map f xs"
    by (cases rs) auto
  from fx have "P r = Q x" by (rule assms(2))
  with Cons.IH [OF rest] rs fx show ?case by simp
qed

lemma report_result_empresa:
  "report_result E mapping zf info = Inr r \<Longrightarrow>
     (empresa r \<noteq> desconhecida) = known E mapping info"
  by (auto simp: report_result_def known_def split: sum.splits)

lemma foldl_snoc_map: "foldl (\<lambda>acc x. acc @ [g x]) acc xs = acc @ map g xs"
  by (induction xs arbitrary: acc) simp_all

lemma pdf_data_rows: "pdf_data rs = header # map result_row rs"
  by (simp add: pdf_data_def foldl_snoc_map)

lemma results_frame_columns: "columns (results_frame ks) = (if ks = [] then [] else header)"
  by (cases ks) (simp_all add: results_frame_def DataFrame_def header_def)

lemma results_frame_rows: "df_rows (results_frame ks) = map result_row ks"
  by (simp add: results_frame_def DataFrame_def result_row_def)

lemma map_sum_Inr_rows:
  assumes "map Inr ks = map (report_result E mapping zf) xs"
  shows "map Inr (map result_row ks) = map (report_row E mapping zf) xs"
proof -
  have "map Inr (map result_row ks) = map (map_sum id result_row) (map Inr ks)"
    by simp
  also have "\<dots> = map (map_sum id result_row) (map (report_result E mapping zf) xs)"
    by (simp only: assms)
  also have "\<dots> = map (report_row E mapping zf) xs"
    by (simp add: report_row_def)
  finally show ?thesis .
qed

lemma main_Some:
  assumes "main E (Some zf) mapping_text = Inr (Some out)"
  obtains mapping st where
    "parse_mapping (isdigit E) mapping_text = Inr mapping"
    "for_infolist E mapping zf empty_state zf = Inr st"
    "encode_utf8 (to_csv (linesep E) (results_frame (known_results (results st)))) =
       Inr (csv out)"
    "st_dataframe out = results_frame (known_results (results st))"
    "pdf out = fst (try_generate_pdf E (known_results (results st)))"
    "st_error out = snd (try_generate_pdf E (known_results (results st)))"
    "zip_out out = write_zip E st"
proof (cases "parse_mapping (isdigit E) mapping_text")
  case (Inl e)
  with assms show ?thesis by (simp add: main_def split: if_splits)
next
  case (Inr mapping)
  note pm = Inr
  show ?thesis
  proof (cases "for_infolist E mapping zf empty_state zf")
    case (Inl e)
    with assms pm show ?thesis by (simp add: main_def split: if_splits)
  next
    case (Inr st)
    note lp = Inr
    let ?ks = "known_results (results st)"
    show ?thesis
    proof (cases "encode_utf8 (to_csv (linesep E) (results_frame ?ks))")
      case (Inl e)
      with assms pm lp show ?thesis by (simp add: main_def Let_def split: if_splits)
    next
      case (Inr csv_bytes)
      with assms pm lp have
        "out = \<lparr>st_dataframe = results_frame ?ks, csv = csv_bytes,
                pdf = fst (try_generate_pdf E ?ks), st_error = snd (try_generate_pdf E ?ks),
                zip_out = write_zip E st\<rparr>"
        by (auto simp: main_def Let_def split: if_splits prod.splits)
      with pm lp Inr that show ?thesis by simp
    qed
  qed
qed

lemma main_lists:
  assumes "parse_mapping (isdigit E) mapping_text = Inr mapping"
    and "main E (Some zf) mapping_text = Inr (Some out)"
  shows "map Inr (df_rows (st_dataframe out)) =
           map (report_row E mapping zf) (filter (known E mapping) (reports E zf))"
    and "zip_out out =
           map (renamed_entry E mapping zf) (filter (known E mapping) (reports E zf))
           @ map (review_entry E zf) (filter (\<lambda>i. \<not> known E mapping i) (reports E zf))"
    and "encode_utf8
           (csv_line (linesep E) (columns (st_dataframe out))
            @ concat (map (csv_line (linesep E)) (df_rows (st_dataframe out)))) = Inr (csv out)"
    and "columns (st_dataframe out) =
           (if filter (known E mapping) (reports E zf) = [] then [] else header)"
    and "pdf out =
           (case doc_build E (pdf_title, header # df_rows (st_dataframe out)) of
              Inr b \<Rightarrow> Some b
            | Inl e \<Rightarrow> None)"
proof -
  from assms(2) obtain mapping' st where
    pm: "parse_mapping (isdigit E) mapping_text = Inr mapping'"
    and lp: "for_infolist E mapping' zf empty_state zf = Inr st"
    and cs: "encode_utf8 (to_csv (linesep E) (results_frame (known_results (results st)))) =
       Inr (csv out)"
    and df: "st_dataframe out = results_frame (known_results (results st))"
    and pd: "pdf out = fst (try_generate_pdf E (known_results (results st)))"
    and zp: "zip_out out = write_zip E st"
    by (rule main_Some)
  from pm assms(1) have [simp]: "mapping' = mapping" by simp
  let ?K = "filter (known E mapping) (reports E zf)"
  from lp have inv:
    "map Inr (results st) = map (report_result E mapping zf) (reports E zf)"
    "matched_files st =
       map (\<lambda>i. (resolve_empresa (isdigit E) mapping (filename i) @ cp ''.pdf'',
                  report_bytes zf i)) ?K"
    "unmatched_files st =
       map (\<lambda>i. (filename i, report_bytes zf i))
         (filter (\<lambda>i. \<not> known E mapping i) (reports E zf))"
    using for_infolist_lists [of zf zf E mapping empty_state st]
    by (simp_all add: empty_state_def)
  from inv(1) have ks: "map Inr (known_results (results st)) = map (report_result E mapping zf) ?K"
    unfolding known_results_def by (rule filter_map_Inr) (rule report_result_empresa)
  from ks have "map Inr (map result_row (known_results (results st))) =
      map (report_row E mapping zf) ?K"
    by (rule map_sum_Inr_rows)
  with df show "map Inr (df_rows (st_dataframe out)) = map (report_row E mapping zf) ?K"
    by (simp add: results_frame_rows)
  from zp inv(2,3) show "zip_out out =
           map (renamed_entry E mapping zf) ?K
           @ map (review_entry E zf) (filter (\<lambda>i. \<not> known E mapping i) (reports E zf))"
    by (simp add: write_zip_def renamed_entry_def review_entry_def)
  from cs df show "encode_utf8
           (csv_line (linesep E) (columns (st_dataframe out))
            @ concat (map (csv_line (linesep E)) (df_rows (st_dataframe out)))) = Inr (csv out)"
    by (simp add: to_csv_def)
  from ks have "length (known_results (results st)) = length ?K"
    by (metis length_map)
  then have "known_results (results st) = [] \<longleftrightarrow> ?K = []" by auto
  with df show "columns (st_dataframe out) = (if ?K = [] then [] else header)"
    by (simp add: results_frame_columns)
  from pd df show "pdf out =
           (case doc_build E (pdf_title, header # df_rows (st_dataframe out)) of
              Inr b \<Rightarrow> Some b
            | Inl e \<Rightarrow> None)"
    by (simp add: try_generate_pdf_def generate_pdf_def pdf_data_rows results_frame_rows
        split: sum.splits)
qed


subsection \<open>The example run, evaluated\<close>

lemma analyze_text_c1_nl: "analyze_text (text_c1 @ [10]) = (True, False)"
  by code_simp

lemma analyze_text_nl: "analyze_text [10] = (False, False)"
  by code_simp

lemma parse_c4: "parse_mapping ascii_digit mapping_text_c4 = Inr mapping_c4"
  by (simp add: eval_defs mapping_text_c4_def mapping_c4_def)

lemmas run_defs = loop_body_def is_report_def endswith_def suffix_to_prefix zf_read_def
  extract_text_from_bytes_def env_ex_def env_pdf_fails_def ascii_lower_def Let_def
  resolve_empresa_def mapping_get_def desconhecida_def ascii_digit_def cp_def
  empty_state_def

lemma loop_c4: "for_infolist env_ex mapping_c4 zip_c4 empty_state zip_c4 = Inr st_c4"
  by (simp add: run_defs zip_c4_def mapping_c4_def st_c4_def
      analyze_text_c1_nl analyze_text_nl)

lemma loop_c7: "for_infolist env_pdf_fails mapping_c4 zip_c4 empty_state zip_c4 = Inr st_c4"
  by (simp add: run_defs zip_c4_def mapping_c4_def st_c4_def
      analyze_text_c1_nl analyze_text_nl)

lemma known_c4: "known_results (results st_c4) = [\<lparr>empresa = cp ''Acme Corp'', rf = True, pgfn = False\<rparr>]"
  by (simp add: known_results_def st_c4_def desconhecida_def cp_def)

lemma frame_c4: "results_frame [\<lparr>empresa = cp ''Acme Corp'', rf = True, pgfn = False\<rparr>] = df_c4"
  by (simp add: results_frame_def DataFrame_def df_c4_def header_def sim_nao_def)

lemma csv_text_c4: "to_csv [10] df_c4 =
    cp ''Empresa,Parcelamento RF,Parcelamento PGFN'' @ [10] @ cp ''Acme Corp,Sim,N'' @ [227] @ cp ''o'' @ [10]"
  by (simp add: to_csv_def csv_line_def csv_field_def df_c4_def header_def cp_def)

lemma csv_bytes_c4: "encode_utf8 (to_csv [10] df_c4) = Inr csv_c4"
  by (simp add: csv_text_c4 csv_c4_def cp_def encode_char_def)

lemma write_zip_c4: "os_sep E = 47 \<Longrightarrow> write_zip E st_c4 = zip_out_c4"
  by (simp add: write_zip_def zipinfo_name_def st_c4_def zip_out_c4_def cp_def)

lemma main_c4: "main env_ex (Some zip_c4) mapping_text_c4 = Inr (Some out_c4)"
proof -
  have a: "isdigit env_ex = ascii_digit" "linesep env_ex = [10]" "os_sep env_ex = 47"
    by (simp_all add: env_ex_def)
  have b: "mapping_text_c4 \<noteq> []" by (simp add: mapping_text_c4_def cp_def)
  have c: "try_generate_pdf env_ex [\<lparr>empresa = cp ''Acme Corp'', rf = True, pgfn = False\<rparr>]
            = (Some [37, 80, 68, 70], [])"
    by (simp add: try_generate_pdf_def generate_pdf_def env_ex_def)
  show ?thesis
    by (simp add: main_def a b c parse_c4 loop_c4 known_c4 frame_c4 csv_bytes_c4 write_zip_c4
        out_c4_def)
qed


lemma main_c7: "main env_pdf_fails (Some zip_c4) mapping_text_c4 = Inr (Some out_c7)"
proof -
  have a: "isdigit env_pdf_fails = ascii_digit" "linesep env_pdf_fails = [10]"
    "os_sep env_pdf_fails = 47"
    by (simp_all add: env_pdf_fails_def env_ex_def)
  have b: "mapping_text_c4 \<noteq> []" by (simp add: mapping_text_c4_def cp_def)
  have c: "try_generate_pdf env_pdf_fails
             [\<lparr>empresa = cp ''Acme Corp'', rf = True, pgfn = False\<rparr>]
            = (None, [cp ''Erro ao gerar PDF: LayoutError''])"
    by (simp add: try_generate_pdf_def generate_pdf_def env_pdf_fails_def env_ex_def cp_def)
  show ?thesis
    by (simp add: main_def a b c parse_c4 loop_c7 known_c4 frame_c4 csv_bytes_c4 write_zip_c4
        out_c7_def)
qed

lemma to_csv_no_results: "to_csv nl (results_frame []) = nl"
  by (simp add: to_csv_def results_frame_def DataFrame_def csv_line_def)

lemma to_csv_results:
  "ks \<noteq> [] \<Longrightarrow>
     to_csv nl (results_frame ks) =
       csv_line nl header @ concat (map (\<lambda>r. csv_line nl (result_row r)) ks)"
  by (cases ks)
    (simp_all add: to_csv_def results_frame_def DataFrame_def header_def result_row_def o_def)

text \<open>
  Names that \<^verbatim>\<open>ZipInfo\<close> stores as they are, and the two larger examples: an archive of
  six entries with three reports of known companies (two of the same company) and two
  reports without a known company, and a mapping whose company name holds a NUL.
\<close>

lemma zipinfo_name_safe:
  assumes "0 \<notin> set n" and "os_sep E = 47 \<or> os_sep E \<notin> set n"
  shows "zipinfo_name E n = n"
proof -
  from assms(1) have t: "takeWhile (\<lambda>c. c \<noteq> 0) n = n"
    by (induction n) auto
  from assms(2) show ?thesis
    unfolding zipinfo_name_def Let_def t by auto
qed

lemma renamed_name_safe:
  "zip_safe E c \<Longrightarrow>
     zipinfo_name E (cp ''renomeados/'' @ c @ cp ''.pdf'') = cp ''renomeados/'' @ c @ cp ''.pdf''"
  by (rule zipinfo_name_safe) (auto simp: zip_safe_def cp_def)

lemma review_name_safe:
  "zip_safe E n \<Longrightarrow>
     zipinfo_name E (cp ''nao_encontrados/'' @ n) = cp ''nao_encontrados/'' @ n"
  by (rule zipinfo_name_safe) (auto simp: zip_safe_def cp_def)

lemma parse_c10: "parse_mapping ascii_digit mapping_text_c10 = Inr mapping_c10"
  by (simp add: eval_defs mapping_text_c10_def mapping_c10_def)

lemmas entry_defs = entry_b_def entry_beta_def entry_txt_def entry_jan_def entry_a_def
  entry_fev_def

lemma loop_c10: "for_infolist env_ex mapping_c10 zip_c10 empty_state zip_c10 = Inr st_c10"
  by (simp add: run_defs zip_c10_def entry_defs mapping_c10_def st_c10_def
      analyze_text_c1_nl analyze_text_nl)

lemma known_c10:
  "known_results (results st_c10) =
     [\<lparr>empresa = cp ''Beta Ltda'', rf = True, pgfn = False\<rparr>,
      \<lparr>empresa = cp ''Acme Corp'', rf = False, pgfn = False\<rparr>,
      \<lparr>empresa = cp ''Acme Corp'', rf = True, pgfn = False\<rparr>]"
  by (simp add: known_results_def st_c10_def desconhecida_def cp_def)

lemma frame_c10:
  "results_frame
     [\<lparr>empresa = cp ''Beta Ltda'', rf = True, pgfn = False\<rparr>,
      \<lparr>empresa = cp ''Acme Corp'', rf = False, pgfn = False\<rparr>,
      \<lparr>empresa = cp ''Acme Corp'', rf = True, pgfn = False\<rparr>] = df_c10"
  by (simp add: results_frame_def DataFrame_def df_c10_def header_def sim_nao_def nao_def)

lemma csv_bytes_c10: "encode_utf8 (to_csv [10] df_c10) = Inr csv_c10"
  by (simp add: to_csv_def csv_line_def csv_field_def df_c10_def header_def nao_def
      csv_c10_def cp_def encode_char_def)

lemma write_zip_c10: "write_zip env_ex st_c10 = zip_out_c10"
  by (simp add: write_zip_def zipinfo_name_def env_ex_def st_c10_def zip_out_c10_def cp_def)

lemma main_c10: "main env_ex (Some zip_c10) mapping_text_c10 = Inr (Some out_c10)"
proof -
  have a: "isdigit env_ex = ascii_digit" "linesep env_ex = [10]"
    by (simp_all add: env_ex_def)
  have b: "mapping_text_c10 \<noteq> []" by (simp add: mapping_text_c10_def cp_def)
  have c: "try_generate_pdf env_ex
             [\<lparr>empresa = cp ''Beta Ltda'', rf = True, pgfn = False\<rparr>,
              \<lparr>empresa = cp ''Acme Corp'', rf = False, pgfn = False\<rparr>,
              \<lparr>empresa = cp ''Acme Corp'', rf = True, pgfn = False\<rparr>]
            = (Some [37, 80, 68, 70], [])"
    by (simp add: try_generate_pdf_def generate_pdf_def env_ex_def)
  show ?thesis
    by (simp add: main_def a b c parse_c10 loop_c10 known_c10 frame_c10 csv_bytes_c10
        write_zip_c10 out_c10_def)
qed

lemma reports_c10: "reports env_ex zip_c10 = [entry_b, entry_beta, entry_jan, entry_a, entry_fev]"
  by (simp add: reports_def is_report_def endswith_def suffix_to_prefix env_ex_def
      ascii_lower_def zip_c10_def entry_defs cp_def)

lemma known_reports_c10:
  "filter (known env_ex mapping_c10) [entry_b, entry_beta, entry_jan, entry_a, entry_fev] =
     [entry_beta, entry_jan, entry_fev]"
  by (simp add: known_def env_ex_def resolve_empresa_def mapping_get_def desconhecida_def
      ascii_digit_def mapping_c10_def entry_defs cp_def)

lemma unknown_reports_c10:
  "filter (\<lambda>i. \<not> known env_ex mapping_c10 i) [entry_b, entry_beta, entry_jan, entry_a, entry_fev] =
     [entry_b, entry_a]"
  by (simp add: known_def env_ex_def resolve_empresa_def mapping_get_def desconhecida_def
      ascii_digit_def mapping_c10_def entry_defs cp_def)


lemma parse_nul: "parse_mapping ascii_digit mapping_text_nul = Inr mapping_nul"
  by (simp add: eval_defs mapping_text_nul_def mapping_nul_def)

lemma loop_nul: "for_infolist env_ex mapping_nul zip_nul empty_state zip_nul = Inr st_nul"
  by (simp add: run_defs zip_nul_def mapping_nul_def st_nul_def analyze_text_c1_nl)

lemma known_nul:
  "known_results (results st_nul) = [\<lparr>empresa = [65, 0, 66], rf = True, pgfn = False\<rparr>]"
  by (simp add: known_results_def st_nul_def desconhecida_def cp_def)

lemma frame_nul:
  "results_frame [\<lparr>empresa = [65, 0, 66], rf = True, pgfn = False\<rparr>] = df_nul"
  by (simp add: results_frame_def DataFrame_def header_def sim_nao_def nao_def df_nul_def)

lemma csv_bytes_nul: "encode_utf8 (to_csv [10] df_nul) = Inr csv_nul"
  by (simp add: to_csv_def csv_line_def csv_field_def header_def nao_def cp_def encode_char_def
      df_nul_def csv_nul_def)

lemma write_zip_nul: "write_zip env_ex st_nul = [(cp ''renomeados/A'', [1])]"
  by (simp add: write_zip_def zipinfo_name_def env_ex_def st_nul_def cp_def)

lemma main_nul: "main env_ex (Some zip_nul) mapping_text_nul = Inr (Some out_nul)"
proof -
  have a: "isdigit env_ex = ascii_digit" "linesep env_ex = [10]"
    by (simp_all add: env_ex_def)
  have b: "mapping_text_nul \<noteq> []" by (simp add: mapping_text_nul_def)
  have c: "try_generate_pdf env_ex [\<lparr>empresa = [65, 0, 66], rf = True, pgfn = False\<rparr>]
            = (Some [37, 80, 68, 70], [])"
    by (simp add: try_generate_pdf_def generate_pdf_def env_ex_def)
  show ?thesis
    by (simp add: main_def a b c parse_nul loop_nul known_nul frame_nul csv_bytes_nul
        write_zip_nul out_nul_def)
qed

section \<open>Claims about the batch run\<close>

text \<open>
  C4. For every run that completes: the rows of the table are, counted with multiplicity,
  the rows of the reports whose company is not "Desconhecida", one row for each such
  report and none for a report resolving to "Desconhecida"; the CSV is the line of column
  names followed by one line for each row of the table, and the PDF table is the header
  row followed by the same rows; the output archive holds, counted with multiplicity, one
  entry for each report with a known company, named \<^verbatim>\<open>renomeados/{company}.pdf\<close> as
  \<^verbatim>\<open>ZipInfo\<close> stores that name (cut at the first NUL, the platform separator written
  as \<^verbatim>\<open>/\<close>), and one entry for each report resolving to "Desconhecida", named
  \<^verbatim>\<open>nao_encontrados/{original name}\<close> stored likewise, and nothing else; a company name
  without NUL and without a platform separator other than \<^verbatim>\<open>/\<close> gives exactly
  \<^verbatim>\<open>renomeados/{company}.pdf\<close>, and an original name of that kind, as the names of an
  opened archive are, gives exactly \<^verbatim>\<open>nao_encontrados/{original name}\<close>.
\<close>

theorem each_report_exactly_once:
  assumes "parse_mapping (isdigit E) mapping_text = Inr mapping"
    and "main E (Some zf) mapping_text = Inr (Some out)"
  shows "mset (map Inr (df_rows (st_dataframe out))) =
           image_mset (report_row E mapping zf)
             (filter_mset (known E mapping) (mset (reports E zf)))
       \<and> encode_utf8
           (csv_line (linesep E) (columns (st_dataframe out))
            @ concat (map (csv_line (linesep E)) (df_rows (st_dataframe out)))) = Inr (csv out)
       \<and> pdf out =
           (case doc_build E (pdf_title, header # df_rows (st_dataframe out)) of
              Inr b \<Rightarrow> Some b
            | Inl e \<Rightarrow> None)
       \<and> mset (zip_out out) =
           image_mset (renamed_entry E mapping zf)
             (filter_mset (known E mapping) (mset (reports E zf)))
           + image_mset (review_entry E zf)
               (filter_mset (\<lambda>i. \<not> known E mapping i) (mset (reports E zf)))
       \<and> (zip_safe E (resolve_empresa (isdigit E) mapping (filename i)) \<longrightarrow>
            fst (renamed_entry E mapping zf i) =
              cp ''renomeados/'' @ resolve_empresa (isdigit E) mapping (filename i) @ cp ''.pdf'')
       \<and> (zip_safe E (filename j) \<longrightarrow>
            fst (review_entry E zf j) = cp ''nao_encontrados/'' @ filename j)"
proof -
  note l = main_lists [OF assms]
  have "mset (map Inr (df_rows (st_dataframe out))) =
      mset (map (report_row E mapping zf) (filter (known E mapping) (reports E zf)))"
    by (simp only: l(1))
  then have rows: "mset (map Inr (df_rows (st_dataframe out))) =
           image_mset (report_row E mapping zf)
             (filter_mset (known E mapping) (mset (reports E zf)))"
    by simp
  have "mset (zip_out out) =
      mset (map (renamed_entry E mapping zf) (filter (known E mapping) (reports E zf))
            @ map (review_entry E zf) (filter (\<lambda>i. \<not> known E mapping i) (reports E zf)))"
    by (simp only: l(2))
  then have arch: "mset (zip_out out) =
           image_mset (renamed_entry E mapping zf)
             (filter_mset (known E mapping) (mset (reports E zf)))
           + image_mset (review_entry E zf)
               (filter_mset (\<lambda>i. \<not> known E mapping i) (mset (reports E zf)))"
    by simp
  have ren: "zip_safe E (resolve_empresa (isdigit E) mapping (filename i)) \<longrightarrow>
            fst (renamed_entry E mapping zf i) =
              cp ''renomeados/'' @ resolve_empresa (isdigit E) mapping (filename i) @ cp ''.pdf''"
    by (simp add: renamed_entry_def renamed_name_safe)
  have rev: "zip_safe E (filename j) \<longrightarrow>
            fst (review_entry E zf j) = cp ''nao_encontrados/'' @ filename j"
    by (simp add: review_entry_def review_name_safe)
  from rows arch l(3) l(5) ren rev show ?thesis by blast
qed

theorem each_report_exactly_once_witness:
  "parse_mapping (isdigit env_ex) mapping_text_c10 = Inr mapping_c10
   \<and> main env_ex (Some zip_c10) mapping_text_c10 = Inr (Some out_c10)
   \<and> reports env_ex zip_c10 = [entry_b, entry_beta, entry_jan, entry_a, entry_fev]
   \<and> mset (map Inr (df_rows (st_dataframe out_c10))) =
           image_mset (report_row env_ex mapping_c10 zip_c10)
             (filter_mset (known env_ex mapping_c10) (mset (reports env_ex zip_c10)))
   \<and> encode_utf8
           (csv_line (linesep env_ex) (columns (st_dataframe out_c10))
            @ concat (map (csv_line (linesep env_ex)) (df_rows (st_dataframe out_c10)))) =
         Inr (csv out_c10)
   \<and> pdf out_c10 =
           (case doc_build env_ex (pdf_title, header # df_rows (st_dataframe out_c10)) of
              Inr b \<Rightarrow> Some b
            | Inl e \<Rightarrow> None)
   \<and> mset (zip_out out_c10) =
           image_mset (renamed_entry env_ex mapping_c10 zip_c10)
             (filter_mset (known env_ex mapping_c10) (mset (reports env_ex zip_c10)))
           + image_mset (review_entry env_ex zip_c10)
               (filter_mset (\<lambda>i. \<not> known env_ex mapping_c10 i)
                  (mset (reports env_ex zip_c10)))
   \<and> zip_safe env_ex (resolve_empresa (isdigit env_ex) mapping_c10 (filename entry_beta))
   \<and> fst (renamed_entry env_ex mapping_c10 zip_c10 entry_beta) =
         cp ''renomeados/'' @ cp ''Beta Ltda'' @ cp ''.pdf''
   \<and> zip_safe env_ex (filename entry_b)
   \<and> fst (review_entry env_ex zip_c10 entry_b) = cp ''nao_encontrados/'' @ cp ''b.pdf''"
proof -
  have h1: "parse_mapping (isdigit env_ex) mapping_text_c10 = Inr mapping_c10"
    by (simp add: env_ex_def parse_c10)
  have h2: "main env_ex (Some zip_c10) mapping_text_c10 = Inr (Some out_c10)"
    by (rule main_c10)
  have r: "resolve_empresa (isdigit env_ex) mapping_c10 (filename entry_beta) = cp ''Beta Ltda''"
    by (simp add: env_ex_def resolve_empresa_def mapping_get_def ascii_digit_def
        mapping_c10_def entry_beta_def cp_def)
  have f: "filename entry_b = cp ''b.pdf''" by (simp add: entry_b_def)
  have z1: "zip_safe env_ex (cp ''Beta Ltda'')"
    by (simp add: zip_safe_def env_ex_def cp_def)
  have z2: "zip_safe env_ex (cp ''b.pdf'')"
    by (simp add: zip_safe_def env_ex_def cp_def)
  note t = each_report_exactly_once [OF h1 h2, of entry_beta entry_b, unfolded r f]
  from t z1 z2 h1 h2 reports_c10 show ?thesis unfolding r f by blast
qed

text \<open>
  The claim as first stated names the entry \<^verbatim>\<open>{company}.pdf\<close> for every run. With the
  mapping line \<^verbatim>\<open>A<NUL>B<TAB>11.222.333/0001-44\<close> and the report
  \<^verbatim>\<open>11222333000144.pdf\<close> the company is \<^verbatim>\<open>A<NUL>B\<close>, the name passed to
  \<^verbatim>\<open>writestr\<close> is \<^verbatim>\<open>renomeados/A<NUL>B.pdf\<close>, and the entry of the archive is
  \<^verbatim>\<open>renomeados/A\<close>.
\<close>

theorem each_report_named_counterexample:
  "parse_mapping (isdigit env_ex) mapping_text_nul = Inr mapping_nul
   \<and> main env_ex (Some zip_nul) mapping_text_nul = Inr (Some out_nul)
   \<and> resolve_empresa (isdigit env_ex) mapping_nul (cp ''11222333000144.pdf'') = [65, 0, 66]
   \<and> [65, 0, 66] \<noteq> desconhecida
   \<and> zip_out out_nul = [(cp ''renomeados/A'', [1])]
   \<and> cp ''renomeados/A'' \<noteq> cp ''renomeados/'' @ [65, 0, 66] @ cp ''.pdf''"
proof -
  have "parse_mapping (isdigit env_ex) mapping_text_nul = Inr mapping_nul"
    by (simp add: env_ex_def parse_nul)
  moreover have "main env_ex (Some zip_nul) mapping_text_nul = Inr (Some out_nul)"
    by (rule main_nul)
  moreover have "resolve_empresa (isdigit env_ex) mapping_nul (cp ''11222333000144.pdf'') =
      [65, 0, 66]"
    by (simp add: env_ex_def resolve_empresa_def mapping_get_def ascii_digit_def
        mapping_nul_def cp_def)
  moreover have "[65, 0, 66] \<noteq> desconhecida" by (simp add: desconhecida_def cp_def)
  moreover have "zip_out out_nul = [(cp ''renomeados/A'', [1])]" by (simp add: out_nul_def)
  moreover have "cp ''renomeados/A'' \<noteq> cp ''renomeados/'' @ [65, 0, 66] @ cp ''.pdf''"
    by (simp add: cp_def)
  ultimately show ?thesis by blast
qed

text \<open>
  C10. For every run that completes, output order follows input order: the rows of the
  table are the rows of the reports with a known company in the order of the archive's
  entries; the CSV is the line of column names followed by the lines of the table's rows
  in the table's order; and the output archive lists the \<^verbatim>\<open>renomeados/\<close> entries and
  then the \<^verbatim>\<open>nao_encontrados/\<close> entries, each group in the order of the archive's
  entries.
\<close>

theorem outputs_in_input_order:
  assumes "parse_mapping (isdigit E) mapping_text = Inr mapping"
    and "main E (Some zf) mapping_text = Inr (Some out)"
  shows "map Inr (df_rows (st_dataframe out)) =
           map (report_row E mapping zf) (filter (known E mapping) (reports E zf))
       \<and> encode_utf8
           (csv_line (linesep E) (columns (st_dataframe out))
            @ concat (map (csv_line (linesep E)) (df_rows (st_dataframe out)))) = Inr (csv out)
       \<and> zip_out out =
           map (renamed_entry E mapping zf) (filter (known E mapping) (reports E zf))
           @ map (review_entry E zf) (filter (\<lambda>i. \<not> known E mapping i) (reports E zf))"
  using main_lists [OF assms] by blast


theorem outputs_in_input_order_witness:
  "parse_mapping (isdigit env_ex) mapping_text_c10 = Inr mapping_c10
   \<and> main env_ex (Some zip_c10) mapping_text_c10 = Inr (Some out_c10)
   \<and> zip_c10 = [entry_b, entry_beta, entry_txt, entry_jan, entry_a, entry_fev]
   \<and> filter (known env_ex mapping_c10) (reports env_ex zip_c10) =
         [entry_beta, entry_jan, entry_fev]
   \<and> filter (\<lambda>i. \<not> known env_ex mapping_c10 i) (reports env_ex zip_c10) =
         [entry_b, entry_a]
   \<and> map Inr (df_rows (st_dataframe out_c10)) =
         map (report_row env_ex mapping_c10 zip_c10) [entry_beta, entry_jan, entry_fev]
   \<and> df_rows (st_dataframe out_c10) =
         [[cp ''Beta Ltda'', cp ''Sim'', nao], [cp ''Acme Corp'', nao, nao],
          [cp ''Acme Corp'', cp ''Sim'', nao]]
   \<and> encode_utf8
           (csv_line (linesep env_ex) (columns (st_dataframe out_c10))
            @ concat (map (csv_line (linesep env_ex)) (df_rows (st_dataframe out_c10)))) =
         Inr (csv out_c10)
   \<and> csv out_c10 = csv_c10
   \<and> zip_out out_c10 =
         map (renamed_entry env_ex mapping_c10 zip_c10) [entry_beta, entry_jan, entry_fev]
         @ map (review_entry env_ex zip_c10) [entry_b, entry_a]
   \<and> zip_out out_c10 = zip_out_c10"
proof -
  have h1: "parse_mapping (isdigit env_ex) mapping_text_c10 = Inr mapping_c10"
    by (simp add: env_ex_def parse_c10)
  have h2: "main env_ex (Some zip_c10) mapping_text_c10 = Inr (Some out_c10)"
    by (rule main_c10)
  have k: "filter (known env_ex mapping_c10) (reports env_ex zip_c10) =
         [entry_beta, entry_jan, entry_fev]"
    by (simp only: reports_c10 known_reports_c10)
  have u: "filter (\<lambda>i. \<not> known env_ex mapping_c10 i) (reports env_ex zip_c10) =
         [entry_b, entry_a]"
    by (simp only: reports_c10 unknown_reports_c10)
  have d: "df_rows (st_dataframe out_c10) =
         [[cp ''Beta Ltda'', cp ''Sim'', nao], [cp ''Acme Corp'', nao, nao],
          [cp ''Acme Corp'', cp ''Sim'', nao]]"
    "csv out_c10 = csv_c10" "zip_out out_c10 = zip_out_c10"
    by (simp_all add: out_c10_def df_c10_def)
  note t = outputs_in_input_order [OF h1 h2, unfolded k u]
  from t h1 h2 k u d zip_c10_def show ?thesis by blast
qed



text \<open>
  C6. The CSV is claimed to begin with the header line in every run. In a run in which no
  report has a known company the list of records is empty, the frame has no columns, and
  the CSV is the line terminator alone, while the table of the PDF still has its header
  row: here for an archive with the single report \<^verbatim>\<open>relatorio.pdf\<close>.
\<close>

theorem csv_without_header:
  "main env_ex (Some zip_c6) mapping_text_c4 = Inr (Some out_c6)
   \<and> csv out_c6 = [10]
   \<and> pdf_data (known_results []) = [header]"
proof -
  have a: "isdigit env_ex = ascii_digit" "linesep env_ex = [10]" "os_sep env_ex = 47"
    by (simp_all add: env_ex_def)
  have b: "mapping_text_c4 \<noteq> []" by (simp add: mapping_text_c4_def cp_def)
  have l: "for_infolist env_ex mapping_c4 zip_c6 empty_state zip_c6 =
      Inr \<lparr>results = [\<lparr>empresa = desconhecida, rf = False, pgfn = False\<rparr>],
           matched_files = [], unmatched_files = [(cp ''relatorio.pdf'', [2])]\<rparr>"
    by (simp add: run_defs zip_c6_def mapping_c4_def analyze_text_nl)
  have k: "known_results [\<lparr>empresa = desconhecida, rf = False, pgfn = False\<rparr>] = []"
    by (simp add: known_results_def)
  have c: "try_generate_pdf env_ex [] = (Some [37, 80, 68, 70], [])"
    by (simp add: try_generate_pdf_def generate_pdf_def env_ex_def)
  have f: "results_frame [] = \<lparr>columns = [], df_rows = []\<rparr>"
    by (simp add: results_frame_def DataFrame_def)
  have e: "encode_utf8 (to_csv [10] \<lparr>columns = [], df_rows = []\<rparr>) = Inr [10]"
    by (simp add: to_csv_def csv_line_def encode_char_def)
  have m: "main env_ex (Some zip_c6) mapping_text_c4 = Inr (Some out_c6)"
    by (simp add: main_def Let_def a b c k l parse_c4 f e write_zip_def zipinfo_name_def
        out_c6_def cp_def)
  have "pdf_data (known_results []) = [header]"
    by (simp add: pdf_data_def known_results_def)
  with m show ?thesis by (simp add: out_c6_def)
qed



end
